theory Spec2Isabelle
  imports Complex_Main "HOL-Library.Char_ord" "HOL-Library.List_Lexorder" "HOL-Library.Log_Nat"
begin

section \<open>Python values and exceptions\<close>

text \<open>
  The tools are Python scripts. Python's unbounded \<^verbatim>\<open>int\<close> is \<^typ>\<open>int\<close>, its
  \<^verbatim>\<open>float\<close> a binary64 number with the rounding written out. An uncaught exception is
  the \<open>Inl\<close> branch of a sum.
\<close>

datatype error =
    ParseError
  | AttributeError
  | ValueError
  | TypeError
  | ZeroDivisionError
  | OverflowError
  | IndexError
  | UnboundLocalError
  | KeyError
  | OSError
  | SystemExit

section \<open>Floating point\<close>

text \<open>
  Python's \<^verbatim>\<open>float\<close> is an IEEE 754 binary64 number. A finite double is a rational
  number, so a double is modelled as the rational it denotes, or one of the infinities,
  or NaN, and every operation computes the exact rational result and rounds it to the
  nearest double, ties to the even significand. The sign of a zero is not modelled: no
  operation below divides by a computed zero.
\<close>

datatype double = Finite rat | PlusInf | MinusInf | NaN

text \<open>
  The binary exponent of a positive rational: \<open>2 powi ilog2 x \<le> x < 2 powi (ilog2 x + 1)\<close>.
  The bit lengths of numerator and denominator fix it up to one.
\<close>

definition ilog2 :: "rat \<Rightarrow> int" where
  "ilog2 x =
     (case quotient_of x of (a, b) \<Rightarrow>
        let k = bitlen a - bitlen b in if 2 powi k \<le> x then k else k - 1)"

text \<open>The nearest integer, a tie going to the even one.\<close>

definition round_half_even :: "rat \<Rightarrow> int" where
  "round_half_even z =
     (let f = \<lfloor>z\<rfloor>; d = z - of_int f
      in if d < 1/2 then f else if 1/2 < d then f + 1 else if even f then f else f + 1)"

text \<open>
  Rounding to binary64: 53 significant bits, the exponent not below that of the
  subnormal numbers, and infinity when the rounded value reaches \<open>2 ^ 1024\<close>.
\<close>

definition round_double :: "rat \<Rightarrow> double" where
  "round_double x =
     (if x = 0 then Finite 0
      else
        let e = max (ilog2 \<bar>x\<bar>) (- 1022);
            q = 2 powi (e - 52);
            y = of_int (round_half_even (x / q)) * q
        in if 2 powi 1024 \<le> \<bar>y\<bar> then (if 0 < x then PlusInf else MinusInf) else Finite y)"

fun fneg :: "double \<Rightarrow> double" where
  "fneg (Finite a) = Finite (- a)"
| "fneg PlusInf = MinusInf"
| "fneg MinusInf = PlusInf"
| "fneg NaN = NaN"

fun fadd :: "double \<Rightarrow> double \<Rightarrow> double" where
  "fadd (Finite a) (Finite b) = round_double (a + b)"
| "fadd NaN b = NaN"
| "fadd a NaN = NaN"
| "fadd PlusInf MinusInf = NaN"
| "fadd MinusInf PlusInf = NaN"
| "fadd PlusInf b = PlusInf"
| "fadd a PlusInf = PlusInf"
| "fadd MinusInf b = MinusInf"
| "fadd a MinusInf = MinusInf"

definition fsub :: "double \<Rightarrow> double \<Rightarrow> double" where
  "fsub a b = fadd a (fneg b)"

fun fsign :: "double \<Rightarrow> int" where
  "fsign (Finite a) = (if 0 < a then 1 else if a < 0 then - 1 else 0)"
| "fsign PlusInf = 1"
| "fsign MinusInf = - 1"
| "fsign NaN = 0"

text \<open>A product with an infinite factor is NaN when the other factor is zero.\<close>

fun fmul :: "double \<Rightarrow> double \<Rightarrow> double" where
  "fmul (Finite a) (Finite b) = round_double (a * b)"
| "fmul NaN b = NaN"
| "fmul a NaN = NaN"
| "fmul a b =
     (let s = fsign a * fsign b
      in if s = 0 then NaN else if 0 < s then PlusInf else MinusInf)"

text \<open>
  Division by a divisor that is not zero. \<^verbatim>\<open>a / b\<close> on Python floats raises
  \<^verbatim>\<open>ZeroDivisionError\<close> for a zero divisor, whatever \<open>a\<close> is.
\<close>

fun ieee_div :: "double \<Rightarrow> double \<Rightarrow> double" where
  "ieee_div (Finite a) (Finite b) = round_double (a / b)"
| "ieee_div NaN b = NaN"
| "ieee_div a NaN = NaN"
| "ieee_div (Finite a) b = Finite 0"
| "ieee_div a (Finite b) = (if 0 < fsign a * fsign (Finite b) then PlusInf else MinusInf)"
| "ieee_div a b = NaN"

definition py_truediv :: "double \<Rightarrow> double \<Rightarrow> error + double" where
  "py_truediv a b = (if b = Finite 0 then Inl ZeroDivisionError else Inr (ieee_div a b))"

text \<open>
  An \<^verbatim>\<open>int\<close> operand of a float operation is converted first; the conversion rounds
  and raises \<^verbatim>\<open>OverflowError\<close> when the integer is too large for a double.
\<close>

definition float_of_int :: "int \<Rightarrow> error + double" where
  "float_of_int n =
     (case round_double (of_int n) of Finite y \<Rightarrow> Inr (Finite y) | _ \<Rightarrow> Inl OverflowError)"

text \<open>
  \<^verbatim>\<open>int(x)\<close> on a float truncates towards zero; it raises \<^verbatim>\<open>OverflowError\<close> for an
  infinity and \<^verbatim>\<open>ValueError\<close> for NaN.
\<close>

definition py_int_of_float :: "double \<Rightarrow> error + int" where
  "py_int_of_float x =
     (case x of
        Finite a \<Rightarrow> Inr (if 0 \<le> a then \<lfloor>a\<rfloor> else \<lceil>a\<rceil>)
      | NaN \<Rightarrow> Inl ValueError
      | _ \<Rightarrow> Inl OverflowError)"

text \<open>\<^verbatim>\<open>a <= b\<close> on floats: false whenever NaN is involved.\<close>

fun fle :: "double \<Rightarrow> double \<Rightarrow> bool" where
  "fle (Finite a) (Finite b) \<longleftrightarrow> a \<le> b"
| "fle NaN b \<longleftrightarrow> False"
| "fle a NaN \<longleftrightarrow> False"
| "fle MinusInf b \<longleftrightarrow> True"
| "fle a PlusInf \<longleftrightarrow> True"
| "fle a b \<longleftrightarrow> False"

section \<open>Coordinate conversion (xmlTools.py)\<close>

text \<open>
  \<^verbatim>\<open>XMLtoTXTConverter._convert_coordinate(imgshape, bbox)\<close> with
  \<^verbatim>\<open>imgshape = (width, height)\<close>, two Python integers, and
  \<^verbatim>\<open>bbox = (xmin, xmax, ymin, ymax)\<close>, four floats. \<^verbatim>\<open>1. / width\<close> converts the width to a
  float, which raises \<^verbatim>\<open>OverflowError\<close> for a huge width, and divides, which raises
  \<^verbatim>\<open>ZeroDivisionError\<close> for a zero width; then the same for the height. There is no
  other check, and no later operation raises.
\<close>

definition convert_coordinate ::
  "int \<times> int \<Rightarrow> double \<times> double \<times> double \<times> double \<Rightarrow>
     error + (double \<times> double \<times> double \<times> double)" where
  "convert_coordinate imgshape bbox =
     (case bbox of (xmin, xmax, ymin, ymax) \<Rightarrow>
        let width = fst imgshape; height = snd imgshape in
        (case float_of_int width of Inl e \<Rightarrow> Inl e | Inr width_f \<Rightarrow>
        (case py_truediv (Finite 1) width_f of Inl e \<Rightarrow> Inl e | Inr dw \<Rightarrow>
        (case float_of_int height of Inl e \<Rightarrow> Inl e | Inr height_f \<Rightarrow>
        (case py_truediv (Finite 1) height_f of Inl e \<Rightarrow> Inl e | Inr dh \<Rightarrow>
        (case py_truediv (fadd xmin xmax) (Finite 2) of Inl e \<Rightarrow> Inl e | Inr x \<Rightarrow>
        (case py_truediv (fadd ymin ymax) (Finite 2) of Inl e \<Rightarrow> Inl e | Inr y \<Rightarrow>
           let w = fsub xmax xmin;
               h = fsub ymax ymin
           in Inr (fmul x dw, fmul y dh, fmul w dw, fmul h dh))))))))"

text \<open>
  One coordinate of the bounding box that \<^verbatim>\<open>TxtToXmlConverter.convert\<close> writes for a
  label line \<^verbatim>\<open>class cx cy w h\<close>:
  \<^verbatim>\<open>int(((float(c)) * P + 1) - (float(s)) * 0.5 * P)\<close> for xmin and ymin, and the same with
  \<^verbatim>\<open>+\<close> for xmax and ymax, where \<open>P\<close> is the width or the height of the image, a Python
  integer.
\<close>

definition bndbox_coord :: "bool \<Rightarrow> double \<Rightarrow> double \<Rightarrow> int \<Rightarrow> error + int" where
  "bndbox_coord upper c s P =
     (case float_of_int P of
        Inl e \<Rightarrow> Inl e
      | Inr P_f \<Rightarrow>
          let centre = fadd (fmul c P_f) (Finite 1);
              half = fmul (fmul s (Finite (1/2))) P_f
          in py_int_of_float (if upper then fadd centre half else fsub centre half))"

text \<open>The four coordinates in the order they are written: xmin, ymin, xmax, ymax.\<close>

definition txt_to_xml_bndbox ::
  "int \<Rightarrow> int \<Rightarrow> double \<times> double \<times> double \<times> double \<Rightarrow> error + (int \<times> int \<times> int \<times> int)" where
  "txt_to_xml_bndbox Pwidth Pheight oneline =
     (case oneline of (cx, cy, w, h) \<Rightarrow>
        (case bndbox_coord False cx w Pwidth of Inl e \<Rightarrow> Inl e | Inr xmin \<Rightarrow>
        (case bndbox_coord False cy h Pheight of Inl e \<Rightarrow> Inl e | Inr ymin \<Rightarrow>
        (case bndbox_coord True cx w Pwidth of Inl e \<Rightarrow> Inl e | Inr xmax \<Rightarrow>
        (case bndbox_coord True cy h Pheight of Inl e \<Rightarrow> Inl e | Inr ymax \<Rightarrow>
           Inr (xmin, ymin, xmax, ymax))))))"

text \<open>
  Denormalise with the TXT-to-XML path, then read the four elements back as
  \<^verbatim>\<open>_convert_xml_to_txt\<close> does (\<^verbatim>\<open>bbox_coor = (xmin, xmax, ymin, ymax)\<close>, each through
  \<^verbatim>\<open>float\<close> of the decimal text of the integer) and normalise with
  \<^const>\<open>convert_coordinate\<close>.
\<close>

definition normalize_denormalize ::
  "int \<times> int \<Rightarrow> double \<times> double \<times> double \<times> double \<Rightarrow>
     error + (double \<times> double \<times> double \<times> double)" where
  "normalize_denormalize imgshape b =
     (case txt_to_xml_bndbox (fst imgshape) (snd imgshape) b of
        Inl e \<Rightarrow> Inl e
      | Inr (xmin, ymin, xmax, ymax) \<Rightarrow>
          convert_coordinate imgshape
            (round_double (of_int xmin), round_double (of_int xmax),
             round_double (of_int ymin), round_double (of_int ymax)))"

text \<open>Two floats are finite and at most \<open>eps\<close> apart; two boxes agree so in every field.\<close>

definition close_to :: "rat \<Rightarrow> double \<Rightarrow> double \<Rightarrow> bool" where
  "close_to eps a b =
     (case a of
        Finite x \<Rightarrow> (case b of Finite y \<Rightarrow> \<bar>y - x\<bar> \<le> eps | _ \<Rightarrow> False)
      | _ \<Rightarrow> False)"

definition within_eps ::
  "rat \<Rightarrow> double \<times> double \<times> double \<times> double \<Rightarrow> double \<times> double \<times> double \<times> double \<Rightarrow> bool" where
  "within_eps eps b b' =
     (case b of (cx, cy, w, h) \<Rightarrow> case b' of (cx', cy', w', h') \<Rightarrow>
        close_to eps cx cx' \<and> close_to eps cy cy' \<and> close_to eps w w' \<and> close_to eps h h')"

section \<open>Strings\<close>

text \<open>
  Label files are text. A \<^typ>\<open>string\<close> here is a sequence of ASCII characters; the
  whitespace of \<^verbatim>\<open>str.strip\<close>, \<^verbatim>\<open>str.split\<close> and the pattern \<^verbatim>\<open>\s\<close> is, in that
  range, space, tab, line feed, vertical tab, form feed, carriage return and the four
  separators 0x1C to 0x1F.
\<close>

definition is_space :: "char \<Rightarrow> bool" where
  "is_space c \<longleftrightarrow> c \<in> set [CHR '' '', CHR 0x09, CHR 0x0A, CHR 0x0B, CHR 0x0C, CHR 0x0D,
                           CHR 0x1C, CHR 0x1D, CHR 0x1E, CHR 0x1F]"

definition is_digit :: "char \<Rightarrow> bool" where
  "is_digit c \<longleftrightarrow> c \<in> set ''0123456789''"

definition digit_val :: "char \<Rightarrow> nat" where
  "digit_val c = of_char c - 48"

text \<open>\<^verbatim>\<open>s.strip()\<close>\<close>

definition strip :: "string \<Rightarrow> string" where
  "strip s = rev (dropWhile is_space (rev (dropWhile is_space s)))"

text \<open>
  \<^verbatim>\<open>s.split()\<close>: the maximal runs of non-whitespace characters. \<open>cur\<close> is the token
  being read, reversed.
\<close>

fun split_from :: "string \<Rightarrow> string \<Rightarrow> string list" where
  "split_from cur [] = (if cur = [] then [] else [rev cur])"
| "split_from cur (c # cs) =
     (if is_space c then (if cur = [] then split_from [] cs else rev cur # split_from [] cs)
      else split_from (c # cur) cs)"

definition py_split :: "string \<Rightarrow> string list" where
  "py_split s = split_from [] s"

text \<open>
  \<^verbatim>\<open>int(s)\<close> on a string, base 10: surrounding whitespace is dropped, one sign is
  allowed, then decimal digits, where single underscores may stand between digits.
  Anything else raises \<^verbatim>\<open>ValueError\<close>.
\<close>

fun int_digits :: "nat \<Rightarrow> string \<Rightarrow> nat option" where
  "int_digits acc [] = Some acc"
| "int_digits acc (c # cs) =
     (if is_digit c then int_digits (10 * acc + digit_val c) cs
      else if c = CHR ''_'' then
        (case cs of
           [] \<Rightarrow> None
         | d # ds \<Rightarrow> if is_digit d then int_digits (10 * acc + digit_val d) ds else None)
      else None)"

definition int_unsigned :: "string \<Rightarrow> nat option" where
  "int_unsigned s =
     (case s of [] \<Rightarrow> None
      | c # cs \<Rightarrow> if is_digit c then int_digits (digit_val c) cs else None)"

definition py_int :: "string \<Rightarrow> error + int" where
  "py_int s =
     (case strip s of
        [] \<Rightarrow> Inl ValueError
      | c # cs \<Rightarrow>
          (case (if c = CHR ''-'' then map_option (\<lambda>n. - int n) (int_unsigned cs)
                 else if c = CHR ''+'' then map_option int (int_unsigned cs)
                 else map_option int (int_unsigned (c # cs))) of
             None \<Rightarrow> Inl ValueError
           | Some i \<Rightarrow> Inr i))"

text \<open>\<^verbatim>\<open>os.path.basename\<close>: what follows the last slash.\<close>

definition basename :: "string \<Rightarrow> string" where
  "basename p = rev (takeWhile (\<lambda>c. c \<noteq> CHR ''/'') (rev p))"

text \<open>
  A \<^verbatim>\<open>collections.Counter\<close> (and a \<^verbatim>\<open>dict\<close>) keeps its keys in the order of their first
  insertion, so it is an association list with distinct keys. \<^verbatim>\<open>c[k] += 1\<close>:
\<close>

fun counter_incr :: "'k \<Rightarrow> ('k \<times> nat) list \<Rightarrow> ('k \<times> nat) list" where
  "counter_incr k [] = [(k, 1)]"
| "counter_incr k ((k', n) # c) =
     (if k = k' then (k', n + 1) # c else (k', n) # counter_incr k c)"

section \<open>Distribution analyzer (yolo\_labels\_distribution.py)\<close>

text \<open>
  The attributes of \<^verbatim>\<open>YOLOLabelAnalyzer\<close> that \<^verbatim>\<open>analyze_labels_distribution\<close> writes.
\<close>

record analyzer =
  labels_counter :: "(int \<times> nat) list"
  total_objects :: nat
  total_label_files :: nat
  objects_per_image :: "(nat \<times> nat) list"
  class_objects_per_image :: "(int \<times> (nat \<times> nat) list) list"

text \<open>The state that \<^verbatim>\<open>__init__\<close> sets up.\<close>

definition analyzer_init :: analyzer where
  "analyzer_init = \<lparr>labels_counter = [], total_objects = 0, total_label_files = 0,
                     objects_per_image = [], class_objects_per_image = []\<rparr>"

text \<open>
  A file found by \<^verbatim>\<open>glob\<close>: its path and its lines, \<open>None\<close> when opening or decoding
  it raises.
\<close>

type_synonym label_file = "string \<times> string list option"

text \<open>
  The loop over the lines of one file. \<^verbatim>\<open>self.labels_counter\<close> is updated in place, so
  its value is returned also when \<^verbatim>\<open>int(parts[0])\<close> raises and the file is abandoned;
  \<open>file_objects\<close> and \<open>cnt\<close> (the source's \<^verbatim>\<open>total_objects_in_file\<close>) are local and
  lost then.
\<close>

fun read_lines ::
  "string list \<Rightarrow> (int \<times> nat) list \<Rightarrow> (int \<times> nat) list \<Rightarrow> nat \<Rightarrow>
     (int \<times> nat) list \<times> (error + (int \<times> nat) list \<times> nat)" where
  "read_lines [] lc file_objects cnt = (lc, Inr (file_objects, cnt))"
| "read_lines (l # ls) lc file_objects cnt =
     (let line = strip l in
      if line \<noteq> [] then
        (let parts = py_split line in
         if 5 \<le> length parts then
           (case py_int (hd parts) of
              Inl e \<Rightarrow> (lc, Inl e)
            | Inr class_id \<Rightarrow>
                read_lines ls (counter_incr class_id lc) (counter_incr class_id file_objects)
                  (cnt + 1))
         else read_lines ls lc file_objects cnt)
      else read_lines ls lc file_objects cnt)"

text \<open>
  \<^verbatim>\<open>for class_id, count in file_objects.items():
      self.class_objects_per_image[class_id][count] += 1\<close>
  The subscript raises \<^verbatim>\<open>KeyError\<close> for a class id that has no entry; the entries
  updated before it stay updated.
\<close>

fun dist_incr :: "int \<Rightarrow> nat \<Rightarrow> (int \<times> (nat \<times> nat) list) list \<Rightarrow>
    (int \<times> (nat \<times> nat) list) list option" where
  "dist_incr k n [] = None"
| "dist_incr k n ((k', c) # d) =
     (if k = k' then Some ((k', counter_incr n c) # d)
      else map_option ((#) (k', c)) (dist_incr k n d))"

fun update_class_dist :: "(int \<times> nat) list \<Rightarrow> (int \<times> (nat \<times> nat) list) list \<Rightarrow>
    (int \<times> (nat \<times> nat) list) list \<times> error option" where
  "update_class_dist [] d = (d, None)"
| "update_class_dist ((class_id, n) # items) d =
     (case dist_incr class_id n d of
        None \<Rightarrow> (d, Some KeyError)
      | Some d' \<Rightarrow> update_class_dist items d')"

text \<open>
  The body of \<^verbatim>\<open>for label_file in txt_files\<close>. Every exception is caught, printed and
  the loop goes on with the next file.
\<close>

definition process_label_file :: "label_file \<Rightarrow> analyzer \<Rightarrow> analyzer" where
  "process_label_file f a =
     (case snd f of
        None \<Rightarrow> a
      | Some ls \<Rightarrow>
          (case read_lines ls (labels_counter a) [] 0 of
             (lc, Inl e) \<Rightarrow> a\<lparr>labels_counter := lc\<rparr>
           | (lc, Inr (file_objects, total_objects_in_file)) \<Rightarrow>
               a\<lparr>labels_counter := lc,
                 objects_per_image := counter_incr total_objects_in_file (objects_per_image a),
                 class_objects_per_image :=
                   fst (update_class_dist file_objects (class_objects_per_image a))\<rparr>))"

definition exclude_files :: "string list" where
  "exclude_files = [''classes.txt'', ''train.txt'', ''val.txt'', ''test.txt'']"

text \<open>
  \<^verbatim>\<open>analyze_labels_distribution\<close>, given the list that \<^verbatim>\<open>glob\<close> returns. The result is
  the returned flag and the analyzer afterwards.
\<close>

definition analyze_labels_distribution :: "label_file list \<Rightarrow> analyzer \<Rightarrow> bool \<times> analyzer" where
  "analyze_labels_distribution globbed a =
     (if globbed = [] then (False, a)
      else
        let txt_files = filter (\<lambda>f. basename (fst f) \<notin> set exclude_files) globbed;
            a1 = a\<lparr>total_label_files := length txt_files,
                   class_objects_per_image := map (\<lambda>i. (int i, [])) [0..<100]\<rparr>;
            a2 = fold process_label_file txt_files a1;
            a3 = a2\<lparr>class_objects_per_image :=
                      filter (\<lambda>(k, v). v \<noteq> [] \<and> k \<in> fst ` set (labels_counter a2))
                        (class_objects_per_image a2)\<rparr>
        in if labels_counter a3 = [] then (False, a3)
           else (True, a3\<lparr>total_objects := sum_list (map snd (labels_counter a3))\<rparr>))"

text \<open>
  The object count of a file: the value of \<^verbatim>\<open>total_objects_in_file\<close> when the loop over
  its lines ends, \<open>None\<close> when the file raises.
\<close>

definition file_object_count :: "label_file \<Rightarrow> nat option" where
  "file_object_count f =
     (case snd f of
        None \<Rightarrow> None
      | Some ls \<Rightarrow> (case snd (read_lines ls [] [] 0) of Inl e \<Rightarrow> None | Inr (fo, n) \<Rightarrow> Some n))"

section \<open>Paths and the file system\<close>

text \<open>\<^verbatim>\<open>s.endswith(suf)\<close>\<close>

definition endswith :: "string \<Rightarrow> string \<Rightarrow> bool" where
  "endswith s suf \<longleftrightarrow> length suf \<le> length s \<and> drop (length s - length suf) s = suf"

text \<open>\<^verbatim>\<open>os.path.join(a, b)\<close> for two components, on POSIX.\<close>

definition path_join :: "string \<Rightarrow> string \<Rightarrow> string" where
  "path_join a b =
     (if b \<noteq> [] \<and> hd b = CHR ''/'' then b
      else if a = [] \<or> last a = CHR ''/'' then a @ b
      else a @ ''/'' @ b)"

text \<open>
  \<^verbatim>\<open>os.path.splitext(p)\<close>: the extension starts at the last dot of the last component,
  leading dots of that component set aside.
\<close>

definition splitext :: "string \<Rightarrow> string \<times> string" where
  "splitext p =
     (let base = basename p;
          rest = dropWhile (\<lambda>c. c = CHR ''.'') base
      in if CHR ''.'' \<in> set rest then
           (let ext = CHR ''.'' # rev (takeWhile (\<lambda>c. c \<noteq> CHR ''.'') (rev rest))
            in (take (length p - length ext) p, ext))
         else (p, []))"

text \<open>\<^verbatim>\<open>os.path.dirname(p)\<close>\<close>

definition dirname :: "string \<Rightarrow> string" where
  "dirname p =
     (let head = take (length p - length (basename p)) p
      in if head \<noteq> [] \<and> (\<exists>c \<in> set head. c \<noteq> CHR ''/'')
         then rev (dropWhile (\<lambda>c. c = CHR ''/'') (rev head)) else head)"

text \<open>
  What a run reads from its surroundings: which paths exist, which are regular files,
  the listing of a directory (\<open>None\<close> when \<^verbatim>\<open>os.listdir\<close> raises \<^verbatim>\<open>OSError\<close>), the lines
  of a text file (\<open>None\<close> when opening or decoding it raises) and whether \<^verbatim>\<open>cv2.imread\<close>
  decodes an image.
\<close>

record world =
  path_exists :: "string \<Rightarrow> bool"
  isfile :: "string \<Rightarrow> bool"
  listdir :: "string \<Rightarrow> string list option"
  readlines :: "string \<Rightarrow> string list option"
  imread_ok :: "string \<Rightarrow> bool"

section \<open>Dataset validator (check\_format.py)\<close>

text \<open>
  The pattern
  \<^verbatim>\<open>^\s*(\d+)\s+([\d.]+)\s+([\d.]+)\s+([\d.]+)\s+([\d.]+)\s*$\<close>
  is a sequence of runs over the classes \<^verbatim>\<open>\s\<close>, \<^verbatim>\<open>\d\<close> and \<^verbatim>\<open>[\d.]\<close>, and every run is
  followed by a run over a disjoint class or by the end of the line. So a match, when
  there is one, takes each run as long as it can, and the pattern is matched by
  scanning from the left. \<open>scan_group\<close> is a non-empty run (\<^verbatim>\<open>+\<close>).
\<close>

definition is_num_char :: "char \<Rightarrow> bool" where
  "is_num_char c \<longleftrightarrow> is_digit c \<or> c = CHR ''.''"

definition scan_group :: "(char \<Rightarrow> bool) \<Rightarrow> string \<Rightarrow> (string \<times> string) option" where
  "scan_group p s = (let g = takeWhile p s in if g = [] then None else Some (g, dropWhile p s))"

text \<open>\<^verbatim>\<open>\s+([\d.]+)\<close>\<close>

definition scan_field :: "string \<Rightarrow> (string \<times> string) option" where
  "scan_field s =
     (case scan_group is_space s of
        None \<Rightarrow> None
      | Some (sp, r) \<Rightarrow> scan_group is_num_char r)"

definition yolo_line_pattern ::
  "string \<Rightarrow> (string \<times> string \<times> string \<times> string \<times> string) option" where
  "yolo_line_pattern s =
     (case scan_group is_digit (dropWhile is_space s) of
        None \<Rightarrow> None
      | Some (g1, r1) \<Rightarrow>
     (case scan_field r1 of
        None \<Rightarrow> None
      | Some (g2, r2) \<Rightarrow>
     (case scan_field r2 of
        None \<Rightarrow> None
      | Some (g3, r3) \<Rightarrow>
     (case scan_field r3 of
        None \<Rightarrow> None
      | Some (g4, r4) \<Rightarrow>
     (case scan_field r4 of
        None \<Rightarrow> None
      | Some (g5, r5) \<Rightarrow>
          if dropWhile is_space r5 = [] then Some (g1, g2, g3, g4, g5) else None)))))"

text \<open>
  \<^verbatim>\<open>float(g)\<close> on a group of the pattern, a non-empty string of digits and dots: the
  double nearest to the decimal (infinity for a decimal too large) when it has at most
  one dot and at least one digit, \<^verbatim>\<open>ValueError\<close> otherwise (\<^verbatim>\<open>float(".")\<close>,
  \<^verbatim>\<open>float("1.2.3")\<close>).
\<close>

definition nat_of_digits :: "string \<Rightarrow> nat" where
  "nat_of_digits ds = foldl (\<lambda>a c. 10 * a + digit_val c) 0 ds"

definition float_of_group :: "string \<Rightarrow> error + double" where
  "float_of_group g =
     (let ip = takeWhile is_digit g in
      case dropWhile is_digit g of
        [] \<Rightarrow>
          if ip = [] then Inl ValueError else Inr (round_double (of_nat (nat_of_digits ip)))
      | c # fp \<Rightarrow>
          if c = CHR ''.'' \<and> list_all is_digit fp \<and> (ip \<noteq> [] \<or> fp \<noteq> [])
          then Inr (round_double
                 (of_nat (nat_of_digits ip) + of_nat (nat_of_digits fp) / 10 ^ length fp))
          else Inl ValueError)"

text \<open>
  The entries of \<^verbatim>\<open>invalid_annotations\<close>. The source builds a message string for each;
  the constructor stands for the message and keeps the values that the message holds:
  \<^item> \<open>EmptyAnnotation\<close>: the file has no non-blank line;
  \<^item> \<open>MalformedLine n line\<close>: line \<open>n\<close> does not match the pattern;
  \<^item> \<open>CoordinateOutOfRange n\<close>: a coordinate of line \<open>n\<close> is outside \<open>[0, 1]\<close>;
  \<^item> \<open>ClassIdOutOfRange n class_id max_class_id\<close>;
  \<^item> \<open>NegativeClassId n class_id\<close>;
  \<^item> \<open>ReadError\<close>: the \<^verbatim>\<open>except Exception\<close> branch.
\<close>

datatype issue =
    EmptyAnnotation
  | MalformedLine nat string
  | CoordinateOutOfRange nat
  | ClassIdOutOfRange nat int int
  | NegativeClassId nat int
  | ReadError error

text \<open>
  \<^verbatim>\<open>for line_num, line in enumerate(lines, 1)\<close>. The list \<open>invalid\<close> is
  \<^verbatim>\<open>invalid_annotations\<close>, appended to in place, so what was appended before an exception
  stays. The four \<^verbatim>\<open>float\<close> calls run in the order of the groups.
\<close>

fun check_lines ::
  "string \<Rightarrow> int option \<Rightarrow> nat \<Rightarrow> string list \<Rightarrow> (string \<times> issue) list \<Rightarrow>
     (string \<times> issue) list \<times> error option" where
  "check_lines label_file max_class_id line_num [] invalid = (invalid, None)"
| "check_lines label_file max_class_id line_num (l # ls) invalid =
     (let line = strip l in
      if line = [] then check_lines label_file max_class_id (line_num + 1) ls invalid
      else
        (case yolo_line_pattern line of
           None \<Rightarrow>
             check_lines label_file max_class_id (line_num + 1) ls
               (invalid @ [(label_file, MalformedLine line_num line)])
         | Some (g1, g2, g3, g4, g5) \<Rightarrow>
        (case py_int g1 of Inl e \<Rightarrow> (invalid, Some e) | Inr class_id \<Rightarrow>
        (case float_of_group g2 of Inl e \<Rightarrow> (invalid, Some e) | Inr cx \<Rightarrow>
        (case float_of_group g3 of Inl e \<Rightarrow> (invalid, Some e) | Inr cy \<Rightarrow>
        (case float_of_group g4 of Inl e \<Rightarrow> (invalid, Some e) | Inr w \<Rightarrow>
        (case float_of_group g5 of Inl e \<Rightarrow> (invalid, Some e) | Inr h \<Rightarrow>
           (let inv1 =
                  (if \<not> (fle (Finite 0) cx \<and> fle cx (Finite 1) \<and>
                          fle (Finite 0) cy \<and> fle cy (Finite 1) \<and>
                          fle (Finite 0) w \<and> fle w (Finite 1) \<and>
                          fle (Finite 0) h \<and> fle h (Finite 1))
                   then invalid @ [(label_file, CoordinateOutOfRange line_num)] else invalid);
                inv2 =
                  (if (case max_class_id of None \<Rightarrow> False | Some m \<Rightarrow> class_id > m)
                   then inv1 @ [(label_file,
                          ClassIdOutOfRange line_num class_id (the max_class_id))]
                   else if class_id < 0
                   then inv1 @ [(label_file, NegativeClassId line_num class_id)]
                   else inv1)
            in check_lines label_file max_class_id (line_num + 1) ls inv2))))))))"

text \<open>The body of \<^verbatim>\<open>for label_file in label_files\<close>, with its \<^verbatim>\<open>try\<close>.\<close>

definition check_label_file ::
  "string \<Rightarrow> string list option \<Rightarrow> int option \<Rightarrow> (string \<times> issue) list \<Rightarrow>
     (string \<times> issue) list" where
  "check_label_file label_file content max_class_id invalid =
     (case content of
        None \<Rightarrow> invalid @ [(label_file, ReadError OSError)]
      | Some lines \<Rightarrow>
          if \<not> list_ex (\<lambda>line. strip line \<noteq> []) lines
          then invalid @ [(label_file, EmptyAnnotation)]
          else
            (case check_lines label_file max_class_id 1 lines invalid of
               (invalid', None) \<Rightarrow> invalid'
             | (invalid', Some e) \<Rightarrow> invalid' @ [(label_file, ReadError e)]))"

text \<open>
  The entries of \<^verbatim>\<open>all_errors\<close>: a heading with its count, or one of the at most five
  items listed under a heading.
\<close>

datatype message =
    ImagesDirMissing string
  | LabelsDirMissing string
  | ImagesWithoutLabel nat
  | LabelsWithoutImage nat
  | BrokenImages nat
  | AnnotationErrors nat
  | ItemName string
  | ItemIssue "string \<times> issue"

record correspondence_info =
  total_images :: nat
  total_labels :: nat
  matched_pairs :: nat
  images_without_label :: "string list"
  labels_without_image :: "string list"

text \<open>
  What \<^verbatim>\<open>validate_yolo_dataset\<close> returns: the dictionary of the early return, with
  \<^verbatim>\<open>success = False\<close> and no report path; an uncaught exception; or the dictionary of a
  finished check (\<^verbatim>\<open>success\<close>, \<^verbatim>\<open>report_path\<close>, \<^verbatim>\<open>correspondence_info\<close>, \<^verbatim>\<open>errors\<close>;
  \<^verbatim>\<open>error_count\<close> is the length of \<^verbatim>\<open>errors\<close>).
\<close>

datatype validation =
    ConfigFailure message
  | Raised error
  | Checked bool string correspondence_info "message list"

text \<open>
  The files a run writes and the directories it creates, in order: the validation
  report; \<^verbatim>\<open>os.makedirs(d, exist_ok=True)\<close>; a list file with its lines; a label file
  with the mode it is opened in and its lines \<^verbatim>\<open>class_id x y w h\<close>.
\<close>

datatype effect =
    WriteReport string correspondence_info "message list"
  | MakeDirs string
  | WriteLines string "string list"
  | WriteLabels string string "(nat \<times> double \<times> double \<times> double \<times> double) list"

definition image_extensions :: "string list" where
  "image_extensions = [''.jpg'', ''.jpeg'', ''.png'', ''.bmp'', ''.gif'', ''.JPG'', ''.PNG'']"

text \<open>
  \<^verbatim>\<open>validate_yolo_dataset\<close>. \<open>sample\<close> is the draw of \<^verbatim>\<open>random.sample\<close>. The Python sets of
  base names are lists without repetition; the order of \<^verbatim>\<open>list(a_set)\<close> is not fixed by
  Python and is here the order of the listing. The report is written at the end, after
  every check.
\<close>

definition validate_yolo_dataset ::
  "world \<Rightarrow> (string list \<Rightarrow> nat \<Rightarrow> string list) \<Rightarrow> string \<Rightarrow> string \<Rightarrow> int option \<Rightarrow>
     string option \<Rightarrow> validation \<times> effect list" where
  "validate_yolo_dataset env sample images_dir labels_dir max_class_id report_path =
     (if \<not> path_exists env images_dir then (ConfigFailure (ImagesDirMissing images_dir), [])
      else if \<not> path_exists env labels_dir then (ConfigFailure (LabelsDirMissing labels_dir), [])
      else
        (case listdir env images_dir of None \<Rightarrow> (Raised OSError, []) | Some image_listing \<Rightarrow>
        (case listdir env labels_dir of None \<Rightarrow> (Raised OSError, []) | Some label_listing \<Rightarrow>
           (let image_files = filter (\<lambda>f. list_ex (endswith f) image_extensions) image_listing;
                label_files = filter (\<lambda>f. endswith f ''.txt'') label_listing;
                image_basenames = remdups (map (\<lambda>f. fst (splitext f)) image_files);
                label_basenames = remdups (map (\<lambda>f. fst (splitext f)) label_files);
                without_label = filter (\<lambda>b. b \<notin> set label_basenames) image_basenames;
                without_image = filter (\<lambda>b. b \<notin> set image_basenames) label_basenames;
                info = \<lparr>total_images = length image_files,
                        total_labels = length label_files,
                        matched_pairs =
                          length (filter (\<lambda>b. b \<in> set label_basenames) image_basenames),
                        images_without_label = without_label,
                        labels_without_image = without_image\<rparr>;
                errors1 =
                  (if without_label \<noteq> []
                   then ImagesWithoutLabel (length without_label)
                          # map ItemName (take 5 (sort without_label))
                   else []);
                errors2 =
                  (if without_image \<noteq> []
                   then LabelsWithoutImage (length without_image)
                          # map ItemName (take 5 (sort without_image))
                   else []);
                sampled_images =
                  (if image_files \<noteq> [] then sample image_files (min 100 (length image_files))
                   else []);
                broken_images =
                  filter (\<lambda>f. \<not> imread_ok env (path_join images_dir f)) sampled_images;
                errors3 =
                  (if broken_images \<noteq> []
                   then BrokenImages (length broken_images) # map ItemName (take 5 broken_images)
                   else []);
                invalid_annotations =
                  fold (\<lambda>label_file invalid.
                          check_label_file label_file
                            (readlines env (path_join labels_dir label_file)) max_class_id invalid)
                       label_files [];
                errors4 =
                  (if invalid_annotations \<noteq> []
                   then AnnotationErrors (length invalid_annotations)
                          # map ItemIssue (take 5 invalid_annotations)
                   else []);
                all_errors = errors1 @ errors2 @ errors3 @ errors4;
                success = (all_errors = []);
                report =
                  (case report_path of
                     None \<Rightarrow> path_join (dirname images_dir) ''dataset_validation_report.txt''
                   | Some p \<Rightarrow> p)
            in (Checked success report info all_errors,
                [WriteReport report info all_errors])))))"

text \<open>No entry of the list is a negative-class-id entry.\<close>

definition no_negative :: "(string \<times> issue) list \<Rightarrow> bool" where
  "no_negative invalid \<longleftrightarrow> (\<forall>x \<in> set invalid. \<forall>n i. snd x \<noteq> NegativeClassId n i)"

section \<open>XML annotation files (xmlTools.py)\<close>

text \<open>
  An element of a parsed document, as \<^verbatim>\<open>xml.etree.ElementTree\<close> gives it: its tag, its
  \<^verbatim>\<open>text\<close> attribute (\<open>None\<close> for an element without text) and its children in document order.
\<close>

datatype xml = Element (tag: string) (elem_text: "string option") (children: "xml list")

text \<open>\<^verbatim>\<open>element.find(name)\<close>: the first child with the tag; \<^verbatim>\<open>element.findall(name)\<close>: all of them.\<close>

definition find_child :: "string \<Rightarrow> xml \<Rightarrow> xml option" where
  "find_child name e = find (\<lambda>c. tag c = name) (children e)"

definition findall :: "string \<Rightarrow> xml \<Rightarrow> xml list" where
  "findall name e = filter (\<lambda>c. tag c = name) (children e)"

subsection \<open>XMLLabelSummarizer\<close>

text \<open>
  \<^verbatim>\<open>_count_names(element)\<close> walks the tree in pre-order and updates \<^verbatim>\<open>self.name_count\<close>,
  a \<^verbatim>\<open>dict\<close>: \<^verbatim>\<open>name_count[name] = name_count.get(name, 0) + 1\<close> is \<^const>\<open>counter_incr\<close>.
  \<^verbatim>\<open>name_element.text.strip()\<close> raises \<^verbatim>\<open>AttributeError\<close> when the name element has no
  text.
\<close>

fun count_names :: "xml \<Rightarrow> (string \<times> nat) list \<Rightarrow> error + (string \<times> nat) list"
  and count_children :: "xml list \<Rightarrow> (string \<times> nat) list \<Rightarrow> error + (string \<times> nat) list" where
  "count_names (Element tg tx ch) name_count =
     (if tg = ''object'' then
        (case find (\<lambda>c. tag c = ''name'') ch of
           None \<Rightarrow> count_children ch name_count
         | Some name_element \<Rightarrow>
             (case elem_text name_element of
                None \<Rightarrow> Inl AttributeError
              | Some t \<Rightarrow> count_children ch (counter_incr (strip t) name_count)))
      else count_children ch name_count)"
| "count_children [] name_count = Inr name_count"
| "count_children (c # cs) name_count =
     (case count_names c name_count of
        Inl e \<Rightarrow> Inl e
      | Inr name_count' \<Rightarrow> count_children cs name_count')"

text \<open>
  \<^verbatim>\<open>parse_xml_file\<close>, for a document that \<^verbatim>\<open>ET.parse\<close> accepts (\<open>Some rt\<close>, the root) or rejects
  (\<open>None\<close>). Before the count it reads \<^verbatim>\<open>object_elem.find('name').text\<close> of every object
  child of the root, which raises when such an object has no name element. The set of
  labels it returns is not part of the class list and is left out.
\<close>

definition parse_xml_file :: "xml option \<Rightarrow> (string \<times> nat) list \<Rightarrow> error + (string \<times> nat) list" where
  "parse_xml_file doc name_count =
     (case doc of
        None \<Rightarrow> Inl ParseError
      | Some rt \<Rightarrow>
          if list_ex (\<lambda>obj. find_child ''name'' obj = None) (findall ''object'' rt)
          then Inl AttributeError
          else count_names rt name_count)"

text \<open>
  \<^verbatim>\<open>summarize_labels\<close>, over the XML files in the order \<^verbatim>\<open>os.walk\<close> yields them. Nothing
  catches an exception here.
\<close>

fun summarize_labels :: "xml option list \<Rightarrow> (string \<times> nat) list \<Rightarrow> error + (string \<times> nat) list" where
  "summarize_labels [] name_count = Inr name_count"
| "summarize_labels (doc # docs) name_count =
     (case parse_xml_file doc name_count of
        Inl e \<Rightarrow> Inl e
      | Inr name_count' \<Rightarrow> summarize_labels docs name_count')"

text \<open>
  \<^verbatim>\<open>get_class_list\<close>: \<^verbatim>\<open>sorted(self.name_count, key=self.name_count.get, reverse=True)\<close>.
  Iterating a \<^verbatim>\<open>dict\<close> gives its keys in insertion order. \<^verbatim>\<open>sorted\<close> is stable, also
  with \<^verbatim>\<open>reverse=True\<close>, where it sorts as if every comparison were reversed: that is
  the stable ascending sort on the negated key.
\<close>

definition name_count_get :: "(string \<times> nat) list \<Rightarrow> string \<Rightarrow> int" where
  "name_count_get name_count k = (case map_of name_count k of None \<Rightarrow> 0 | Some n \<Rightarrow> int n)"

definition get_class_list :: "(string \<times> nat) list \<Rightarrow> string list" where
  "get_class_list name_count =
     sort_key (\<lambda>k. - name_count_get name_count k) (map fst name_count)"

text \<open>
  What the claim about the class list speaks of: the names in the order the scan meets
  them (every object element with a name, files in scan order, each tree in pre-order),
  and the first occurrences of a sequence in their order.
\<close>

fun object_names :: "xml \<Rightarrow> string list" where
  "object_names (Element tg tx ch) =
     (if tg = ''object'' then
        (case find (\<lambda>c. tag c = ''name'') ch of
           None \<Rightarrow> []
         | Some name_element \<Rightarrow> (case elem_text name_element of None \<Rightarrow> [] | Some t \<Rightarrow> [strip t]))
      else [])
     @ concat (map object_names ch)"

definition corpus_names :: "xml option list \<Rightarrow> string list" where
  "corpus_names docs =
     concat (map (\<lambda>doc. case doc of None \<Rightarrow> [] | Some rt \<Rightarrow> object_names rt) docs)"

definition first_seen :: "'a list \<Rightarrow> 'a list" where
  "first_seen xs = rev (remdups (rev xs))"

text \<open>The position at which \<open>a\<close> is first seen in \<open>xs\<close>.\<close>

definition first_index :: "'a list \<Rightarrow> 'a \<Rightarrow> nat" where
  "first_index xs a = length (takeWhile (\<lambda>x. x \<noteq> a) xs)"

subsection \<open>XMLtoTXTConverter\<close>

record converter =
  input_dir :: string
  out_dir :: string
  class_dir :: "string option"
  class_list :: "string list option"
  class_map_dist :: "(string \<times> string) list option"
  txt_write_mode :: string

text \<open>
  Python's truth value of an optional string, list or dictionary: \<^verbatim>\<open>None\<close> and the empty
  one are false. \<open>value_of\<close> is the value once it is known to be true.
\<close>

definition truthy :: "'a list option \<Rightarrow> bool" where
  "truthy x = (case x of None \<Rightarrow> False | Some v \<Rightarrow> v \<noteq> [])"

definition value_of :: "'a list option \<Rightarrow> 'a list" where
  "value_of x = (case x of None \<Rightarrow> [] | Some v \<Rightarrow> v)"

text \<open>
  \<^verbatim>\<open>XMLtoTXTConverter.__init__\<close>: without any class source it prints a message and calls
  \<^verbatim>\<open>exit()\<close>, before the output directory is created.
\<close>

definition converter_init ::
  "string \<Rightarrow> string \<Rightarrow> string option \<Rightarrow> string list option \<Rightarrow> (string \<times> string) list option \<Rightarrow>
     string \<Rightarrow> (error + converter) \<times> effect list" where
  "converter_init input_dir' out_dir' class_dir' class_list' class_map_dist' txt_write_mode' =
     (if \<not> (truthy class_dir' \<or> truthy class_list' \<or> truthy class_map_dist')
      then (Inl SystemExit, [])
      else (Inr \<lparr>input_dir = input_dir', out_dir = out_dir', class_dir = class_dir',
                 class_list = class_list', class_map_dist = class_map_dist',
                 txt_write_mode = txt_write_mode'\<rparr>,
            [MakeDirs out_dir']))"

text \<open>\<^verbatim>\<open>xs.index(x)\<close>: the first position of \<open>x\<close>, \<open>None\<close> where Python raises \<^verbatim>\<open>ValueError\<close>.\<close>

fun index_of :: "'a \<Rightarrow> 'a list \<Rightarrow> nat option" where
  "index_of x [] = None"
| "index_of x (y # ys) = (if x = y then Some 0 else map_option Suc (index_of x ys))"

text \<open>
  The class lookup at the head of the loop over the objects. \<open>Continue\<close> is the
  \<^verbatim>\<open>continue\<close> statement; \<open>ObjId v\<close> is the value of the variable \<^verbatim>\<open>obj_id\<close> afterwards,
  which stays what it was (\<open>None\<close>: not yet bound) when no class list is configured.
  The dictionary is an association list with distinct keys. A name element without
  text gives \<^verbatim>\<open>obj_name = None\<close>, which is in no list and in no dictionary.
\<close>

datatype lookup = Continue | Raises error | ObjId "nat option"

definition lookup_class :: "converter \<Rightarrow> string option \<Rightarrow> nat option \<Rightarrow> lookup" where
  "lookup_class cv obj_name obj_id =
     (if truthy (class_map_dist cv) \<and> truthy (class_list cv) then
        (case obj_name of
           None \<Rightarrow> Continue
         | Some n \<Rightarrow>
             (case map_of (value_of (class_map_dist cv)) n of
                None \<Rightarrow> Continue
              | Some new_class_name \<Rightarrow>
                  (case index_of new_class_name (value_of (class_list cv)) of
                     None \<Rightarrow> Raises ValueError
                   | Some i \<Rightarrow> ObjId (Some i))))
      else if truthy (class_list cv) then
        (case obj_name of
           None \<Rightarrow> Continue
         | Some n \<Rightarrow>
             if n \<notin> set (value_of (class_list cv)) then Continue
             else ObjId (index_of n (value_of (class_list cv))))
      else ObjId obj_id)"

text \<open>
  \<^verbatim>\<open>float(e.find(name).text)\<close> and \<^verbatim>\<open>int(e.find(name).text)\<close>: \<^verbatim>\<open>AttributeError\<close> without
  such a child, \<^verbatim>\<open>TypeError\<close> when the child has no text, \<^verbatim>\<open>ValueError\<close> when the text
  does not parse. \<open>py_float\<close> is Python's \<^verbatim>\<open>float\<close> on strings, \<open>None\<close> where it raises
  \<^verbatim>\<open>ValueError\<close>; the conversion takes it as a parameter.
\<close>

definition float_of_child :: "(string \<Rightarrow> double option) \<Rightarrow> string \<Rightarrow> xml \<Rightarrow> error + double" where
  "float_of_child py_float name e =
     (case find_child name e of
        None \<Rightarrow> Inl AttributeError
      | Some c \<Rightarrow>
          (case elem_text c of
             None \<Rightarrow> Inl TypeError
           | Some t \<Rightarrow> (case py_float t of None \<Rightarrow> Inl ValueError | Some v \<Rightarrow> Inr v)))"

definition int_of_child :: "string \<Rightarrow> xml \<Rightarrow> error + int" where
  "int_of_child name e =
     (case find_child name e of
        None \<Rightarrow> Inl AttributeError
      | Some c \<Rightarrow> (case elem_text c of None \<Rightarrow> Inl TypeError | Some t \<Rightarrow> py_int t))"

text \<open>The four coordinates, read in the order xmin, xmax, ymin, ymax.\<close>

definition read_bndbox ::
  "(string \<Rightarrow> double option) \<Rightarrow> xml \<Rightarrow> error + (double \<times> double \<times> double \<times> double)" where
  "read_bndbox py_float bbox =
     (case float_of_child py_float ''xmin'' bbox of Inl e \<Rightarrow> Inl e | Inr xmin \<Rightarrow>
     (case float_of_child py_float ''xmax'' bbox of Inl e \<Rightarrow> Inl e | Inr xmax \<Rightarrow>
     (case float_of_child py_float ''ymin'' bbox of Inl e \<Rightarrow> Inl e | Inr ymin \<Rightarrow>
     (case float_of_child py_float ''ymax'' bbox of Inl e \<Rightarrow> Inl e | Inr ymax \<Rightarrow>
        Inr (xmin, xmax, ymin, ymax)))))"

text \<open>
  \<^verbatim>\<open>for obj in root.findall('object')\<close>. \<open>txtresult\<close> is the text built so far, one tuple
  per line \<^verbatim>\<open>'{} {} {} {} {}\n'.format(obj_id, x, y, w, h)\<close>; formatting an unbound
  \<^verbatim>\<open>obj_id\<close> raises \<^verbatim>\<open>UnboundLocalError\<close>.
\<close>

fun convert_objects ::
  "(string \<Rightarrow> double option) \<Rightarrow> converter \<Rightarrow> int \<times> int \<Rightarrow> xml list \<Rightarrow> nat option \<Rightarrow>
     (nat \<times> double \<times> double \<times> double \<times> double) list \<Rightarrow>
     error + (nat option \<times> (nat \<times> double \<times> double \<times> double \<times> double) list)" where
  "convert_objects py_float cv imgshape [] obj_id txtresult = Inr (obj_id, txtresult)"
| "convert_objects py_float cv imgshape (obj # objs) obj_id txtresult =
     (case find_child ''name'' obj of
        None \<Rightarrow> Inl AttributeError
      | Some name_element \<Rightarrow>
          (case lookup_class cv (elem_text name_element) obj_id of
             Continue \<Rightarrow> convert_objects py_float cv imgshape objs obj_id txtresult
           | Raises e \<Rightarrow> Inl e
           | ObjId obj_id' \<Rightarrow>
               (case find_child ''bndbox'' obj of
                  None \<Rightarrow> convert_objects py_float cv imgshape objs obj_id' txtresult
                | Some bbox \<Rightarrow>
                    (case read_bndbox py_float bbox of
                       Inl e \<Rightarrow> Inl e
                     | Inr bbox_coor \<Rightarrow>
                         (case convert_coordinate imgshape bbox_coor of
                            Inl e \<Rightarrow> Inl e
                          | Inr (x, y, w, h) \<Rightarrow>
                              (case obj_id' of
                                 None \<Rightarrow> Inl UnboundLocalError
                               | Some i \<Rightarrow>
                                   convert_objects py_float cv imgshape objs obj_id'
                                     (txtresult @ [(i, x, y, w, h)])))))))"

text \<open>\<^verbatim>\<open>name.replace('.xml', '.txt')\<close>\<close>

fun replace_xml :: "string \<Rightarrow> string" where
  "replace_xml [] = []"
| "replace_xml (c # cs) =
     (if take 4 (c # cs) = ''.xml'' then ''.txt'' @ replace_xml (drop 3 cs)
      else c # replace_xml cs)"

text \<open>
  The body of \<^verbatim>\<open>for file_path in file_path_list\<close> for one file: its path and what
  \<^verbatim>\<open>ET.parse\<close> makes of it (\<open>None\<close>: opening or parsing raises). The result is the value of
  \<^verbatim>\<open>obj_id\<close> afterwards and the label file written. Nothing in the loop catches an
  exception.
\<close>

definition convert_file ::
  "(string \<Rightarrow> double option) \<Rightarrow> converter \<Rightarrow> string \<times> xml option \<Rightarrow> nat option \<Rightarrow>
     error + (nat option \<times> effect)" where
  "convert_file py_float cv file obj_id =
     (case snd file of
        None \<Rightarrow> Inl ParseError
      | Some rt \<Rightarrow>
     (case find_child ''size'' rt of
        None \<Rightarrow> Inl AttributeError
      | Some sz \<Rightarrow>
     (case int_of_child ''width'' sz of Inl e \<Rightarrow> Inl e | Inr width \<Rightarrow>
     (case int_of_child ''height'' sz of Inl e \<Rightarrow> Inl e | Inr height \<Rightarrow>
     (case convert_objects py_float cv (width, height) (findall ''object'' rt) obj_id [] of
        Inl e \<Rightarrow> Inl e
      | Inr (obj_id', txtresult) \<Rightarrow>
          Inr (obj_id',
               WriteLabels (path_join (out_dir cv) (replace_xml (basename (fst file))))
                 (txt_write_mode cv) txtresult))))))"

text \<open>
  \<^verbatim>\<open>_convert_xml_to_txt(file_path_list)\<close>: the exception that ended the run, if any, and
  the label files written up to then.
\<close>

fun convert_xml_to_txt ::
  "(string \<Rightarrow> double option) \<Rightarrow> converter \<Rightarrow> (string \<times> xml option) list \<Rightarrow> nat option \<Rightarrow>
     effect list \<Rightarrow> error option \<times> effect list" where
  "convert_xml_to_txt py_float cv [] obj_id written = (None, written)"
| "convert_xml_to_txt py_float cv (file # files) obj_id written =
     (case convert_file py_float cv file obj_id of
        Inl e \<Rightarrow> (Some e, written)
      | Inr (obj_id', w) \<Rightarrow> convert_xml_to_txt py_float cv files obj_id' (written @ [w]))"






text \<open>
  Python's \<^verbatim>\<open>float\<close> on the texts of the examples, which are unsigned decimals: there it
  is \<^const>\<open>float_of_group\<close>.
\<close>

definition float_of_decimal :: "string \<Rightarrow> double option" where
  "float_of_decimal s = (case float_of_group s of Inl e \<Rightarrow> None | Inr v \<Rightarrow> Some v)"

text \<open>
  The data of the examples: a converter with the class list \<^verbatim>\<open>['car', 'bus']\<close>, and
  annotation documents of a 128 by 128 image.
\<close>

definition example_converter :: converter where
  "example_converter =
     \<lparr>input_dir = ''in'', out_dir = ''out'', class_dir = None,
      class_list = Some [''car'', ''bus''], class_map_dist = None, txt_write_mode = ''w''\<rparr>"

definition example_size :: xml where
  "example_size =
     Element ''size'' None
       [Element ''width'' (Some ''128'') [], Element ''height'' (Some ''128'') []]"

definition example_bndbox :: xml where
  "example_bndbox =
     Element ''bndbox'' None
       [Element ''xmin'' (Some ''16'') [], Element ''ymin'' (Some ''16'') [],
        Element ''xmax'' (Some ''48'') [], Element ''ymax'' (Some ''48'') []]"

definition example_object :: "string \<Rightarrow> xml list \<Rightarrow> xml" where
  "example_object name box = Element ''object'' None (Element ''name'' (Some name) [] # box)"

definition example_document :: "xml list \<Rightarrow> xml" where
  "example_document objs = Element ''annotation'' None (example_size # objs)"

section \<open>Dataset splitter (split\_dataset.py)\<close>

text \<open>\<^verbatim>\<open>s.lower()\<close> on ASCII text, and \<^verbatim>\<open>sub in s\<close> on strings.\<close>

definition lower_char :: "char \<Rightarrow> char" where
  "lower_char c =
     (if CHR ''A'' \<le> c \<and> c \<le> CHR ''Z'' then char_of (of_char c + (32 :: nat)) else c)"

definition lower :: "string \<Rightarrow> string" where
  "lower s = map lower_char s"

fun is_substring :: "string \<Rightarrow> string \<Rightarrow> bool" where
  "is_substring sub [] \<longleftrightarrow> sub = []"
| "is_substring sub (c # cs) \<longleftrightarrow> take (length sub) (c # cs) = sub \<or> is_substring sub cs"

text \<open>
  \<^verbatim>\<open>get_all_image_files\<close> and \<^verbatim>\<open>find_image_files_with_strings\<close>, with the default
  extensions. An \<^verbatim>\<open>OSError\<close> of \<^verbatim>\<open>os.listdir\<close> is caught and leaves the list empty.
\<close>

definition split_image_extensions :: "string list" where
  "split_image_extensions = [''.jpg'', ''.jpeg'', ''.png'', ''.bmp'', ''.tiff'', ''.tif'']"

definition get_all_image_files :: "world \<Rightarrow> string \<Rightarrow> string list" where
  "get_all_image_files env directory =
     (case listdir env directory of
        None \<Rightarrow> []
      | Some names \<Rightarrow>
          filter (\<lambda>filename.
                    isfile env (path_join directory filename) \<and>
                    lower (snd (splitext filename)) \<in> set split_image_extensions)
            names)"

definition find_image_files_with_strings :: "world \<Rightarrow> string \<Rightarrow> string list \<Rightarrow> string list" where
  "find_image_files_with_strings env directory search_strings' =
     (case listdir env directory of
        None \<Rightarrow> []
      | Some names \<Rightarrow>
          filter (\<lambda>filename.
                    isfile env (path_join directory filename) \<and>
                    lower (snd (splitext filename)) \<in> set split_image_extensions \<and>
                    (search_strings' \<noteq> [] \<longrightarrow>
                       list_ex (\<lambda>search_string. is_substring search_string filename)
                         search_strings'))
            names)"

text \<open>
  The directory arguments of \<^verbatim>\<open>split_dataset\<close> are a string or a list of strings;
  \<^verbatim>\<open>labels_dir\<close> may be \<^verbatim>\<open>None\<close>, which stands for the image directories.
\<close>

datatype dirs = Single string | Several "string list"

definition images_dir_list_of :: "dirs \<Rightarrow> string list" where
  "images_dir_list_of images_dir = (case images_dir of Single d \<Rightarrow> [d] | Several ds \<Rightarrow> ds)"

definition labels_dir_list_of :: "dirs \<Rightarrow> dirs option \<Rightarrow> string list" where
  "labels_dir_list_of images_dir labels_dir =
     (case labels_dir of
        None \<Rightarrow> images_dir_list_of images_dir
      | Some (Single d) \<Rightarrow> [d]
      | Some (Several ds) \<Rightarrow> ds)"

text \<open>
  The loop that collects \<^verbatim>\<open>all_image_info\<close>, the triples
  \<^verbatim>\<open>(img_file, img_dir, lbl_dir)\<close>, over the directory pairs.
\<close>

definition collect_image_info ::
  "world \<Rightarrow> string list \<Rightarrow> string list \<Rightarrow> string list option \<Rightarrow>
     (string \<times> string \<times> string) list" where
  "collect_image_info env images_dir_list labels_dir_list search_strings =
     concat (map (\<lambda>(img_dir, lbl_dir).
                    map (\<lambda>img_file. (img_file, img_dir, lbl_dir))
                      (if truthy search_strings
                       then find_image_files_with_strings env img_dir (value_of search_strings)
                       else get_all_image_files env img_dir))
               (zip images_dir_list labels_dir_list))"

text \<open>The label file of an image exists.\<close>

definition has_label :: "world \<Rightarrow> string \<times> string \<times> string \<Rightarrow> bool" where
  "has_label env info =
     (case info of (img_file, img_dir, lbl_dir) \<Rightarrow>
        path_exists env (path_join lbl_dir (fst (splitext img_file) @ ''.txt'')))"

text \<open>
  \<^verbatim>\<open>random.sample(population, k)\<close>. The generator is a parameter: \<open>sample g population k\<close>
  is the list drawn in the state \<open>g\<close> and the state afterwards. Python raises
  \<^verbatim>\<open>ValueError\<close> for a negative \<open>k\<close> and for one larger than the population.
\<close>

definition py_sample ::
  "('g \<Rightarrow> nat list \<Rightarrow> nat \<Rightarrow> nat list \<times> 'g) \<Rightarrow> 'g \<Rightarrow> nat list \<Rightarrow> int \<Rightarrow>
     error + (nat list \<times> 'g)" where
  "py_sample sample g population k =
     (if k < 0 \<or> int (length population) < k then Inl ValueError
      else Inr (sample g population (nat k)))"

text \<open>
  The random partition: \<^verbatim>\<open>trainval_indices\<close>, \<^verbatim>\<open>train_indices\<close>, \<^verbatim>\<open>val_indices\<close> and
  \<^verbatim>\<open>test_indices\<close>, and the state of the generator afterwards.
\<close>

definition partition_indices ::
  "('g \<Rightarrow> nat list \<Rightarrow> nat \<Rightarrow> nat list \<times> 'g) \<Rightarrow> 'g \<Rightarrow> nat \<Rightarrow> int \<Rightarrow> int \<Rightarrow>
     (error + (nat list \<times> nat list \<times> nat list \<times> nat list)) \<times> 'g" where
  "partition_indices sample g total_count trainval_count train_count =
     (let indices = [0..<total_count] in
      case py_sample sample g indices trainval_count of
        Inl e \<Rightarrow> (Inl e, g)
      | Inr (trainval_indices, g') \<Rightarrow>
          (case py_sample sample g' trainval_indices train_count of
             Inl e \<Rightarrow> (Inl e, g')
           | Inr (train_indices, g'') \<Rightarrow>
               let val_indices = filter (\<lambda>i. i \<notin> set train_indices) trainval_indices;
                   test_indices = filter (\<lambda>i. i \<notin> set trainval_indices) indices
               in (Inr (trainval_indices, train_indices, val_indices, test_indices), g'')))"

text \<open>
  \<^verbatim>\<open>get_file_path\<close> and \<^verbatim>\<open>get_label_path\<close>; \<open>abspath\<close> is \<^verbatim>\<open>os.path.abspath\<close>, which
  depends on the working directory.
\<close>

definition get_file_path ::
  "(string \<Rightarrow> string) \<Rightarrow> (string \<times> string \<times> string) list \<Rightarrow> bool \<Rightarrow> nat \<Rightarrow> string" where
  "get_file_path abspath all_image_info use_abs_path idx =
     (case all_image_info ! idx of (img_file, img_dir, lbl_dir) \<Rightarrow>
        if use_abs_path then abspath (path_join img_dir img_file)
        else path_join img_dir img_file)"

definition get_label_path ::
  "(string \<Rightarrow> string) \<Rightarrow> (string \<times> string \<times> string) list \<Rightarrow> bool \<Rightarrow> nat \<Rightarrow> string" where
  "get_label_path abspath all_image_info use_abs_path idx =
     (case all_image_info ! idx of (img_file, img_dir, lbl_dir) \<Rightarrow>
        let label_filename = fst (splitext img_file) @ ''.txt''
        in if use_abs_path then abspath (path_join lbl_dir label_filename)
           else path_join lbl_dir label_filename)"

text \<open>
  One list file: the lines written until an index is out of range, where
  \<^verbatim>\<open>all_image_info[idx]\<close> raises \<^verbatim>\<open>IndexError\<close>.
\<close>

definition write_list ::
  "string \<Rightarrow> (nat \<Rightarrow> string) \<Rightarrow> nat \<Rightarrow> nat list \<Rightarrow> error option \<times> effect" where
  "write_list path line_of bound indices_list =
     (let written = takeWhile (\<lambda>idx. idx < bound) indices_list
      in (if length written = length indices_list then None else Some IndexError,
          WriteLines path (map line_of written)))"

text \<open>
  \<^verbatim>\<open>for set_name, indices_list in file_sets.items()\<close>: the image list of each set and,
  when asked for, its label list.
\<close>

fun write_file_sets ::
  "(string \<Rightarrow> string) \<Rightarrow> (string \<times> string \<times> string) list \<Rightarrow> string \<Rightarrow> bool \<Rightarrow> bool \<Rightarrow>
     (string \<times> nat list) list \<Rightarrow> error option \<times> effect list" where
  "write_file_sets abspath all_image_info output_dir use_absolute_path generate_label_lists [] =
     (None, [])"
| "write_file_sets abspath all_image_info output_dir use_absolute_path generate_label_lists
     ((set_name, indices_list) # file_sets) =
     (case write_list (path_join output_dir (set_name @ ''.txt''))
             (get_file_path abspath all_image_info use_absolute_path)
             (length all_image_info) indices_list of
        (Some e, img_list) \<Rightarrow> (Some e, [img_list])
      | (None, img_list) \<Rightarrow>
          (case (if generate_label_lists
                 then (case write_list (path_join output_dir (set_name @ ''_labels.txt''))
                              (get_label_path abspath all_image_info use_absolute_path)
                              (length all_image_info) indices_list of
                         (r, label_list) \<Rightarrow> (r, [label_list]))
                 else (None, [])) of
             (Some e, label_lists) \<Rightarrow> (Some e, img_list # label_lists)
           | (None, label_lists) \<Rightarrow>
               (case write_file_sets abspath all_image_info output_dir use_absolute_path
                       generate_label_lists file_sets of
                  (r, rest) \<Rightarrow> (r, img_list # label_lists @ rest))))"

text \<open>The dictionary that \<^verbatim>\<open>split_dataset\<close> returns.\<close>

record split_summary =
  num_total :: int
  num_train :: int
  num_val :: int
  num_test :: int
  num_trainval :: int
  summary_output_dir :: string

text \<open>
  \<^verbatim>\<open>split_dataset\<close>. \<open>seed\<close> is \<^verbatim>\<open>random.seed\<close>, which sets the state of the generator to
  one that depends on the seed only; \<open>g\<close> is the state of the generator when the call
  starts; \<open>answer\<close> is what the user types when asked whether to use only the images
  with a label file. The result is the exception or the dictionary, the directories
  and files written, and the state of the generator afterwards.
\<close>

definition split_dataset ::
  "world \<Rightarrow> (string \<Rightarrow> string) \<Rightarrow> (int \<Rightarrow> 'g) \<Rightarrow> ('g \<Rightarrow> nat list \<Rightarrow> nat \<Rightarrow> nat list \<times> 'g) \<Rightarrow>
     string \<Rightarrow> 'g \<Rightarrow> dirs \<Rightarrow> dirs option \<Rightarrow> string option \<Rightarrow> string list option \<Rightarrow>
     double \<Rightarrow> double \<Rightarrow> bool \<Rightarrow> bool \<Rightarrow> int option \<Rightarrow>
     (error + split_summary) \<times> effect list \<times> 'g" where
  "split_dataset env abspath seed sample answer g images_dir labels_dir output_dir
     search_strings trainval_percent train_percent use_absolute_path generate_label_lists
     random_seed =
     (let images_dir_list = images_dir_list_of images_dir;
          labels_dir_list = labels_dir_list_of images_dir labels_dir
      in
      if length images_dir_list \<noteq> length labels_dir_list then (Inl ValueError, [], g)
      else if list_ex (\<lambda>img_dir. \<not> path_exists env img_dir) images_dir_list
      then (Inl ValueError, [], g)
      else if output_dir = None \<and> images_dir_list = [] then (Inl IndexError, [], g)
      else
        let output_dir' =
              (case output_dir of
                 None \<Rightarrow> path_join (path_join (hd images_dir_list) ''..'') ''Main''
               | Some d \<Rightarrow> d);
            g1 = (case random_seed of None \<Rightarrow> g | Some n \<Rightarrow> seed n);
            all_image_info =
              collect_image_info env images_dir_list labels_dir_list search_strings
        in
        if all_image_info = [] then (Inl ValueError, [], g1)
        else
          let valid_image_info = filter (has_label env) all_image_info;
              missing_labels = filter (\<lambda>info. \<not> has_label env info) all_image_info;
              all_image_info' =
                (if missing_labels \<noteq> [] \<and> lower answer = ''y'' then valid_image_info
                 else all_image_info);
              image_files = map fst all_image_info';
              made = [MakeDirs output_dir'];
              total_count = length image_files
          in
          (case float_of_int (int total_count) of Inl e \<Rightarrow> (Inl e, made, g1) | Inr total_f \<Rightarrow>
          (case py_int_of_float (fmul total_f trainval_percent) of
             Inl e \<Rightarrow> (Inl e, made, g1) | Inr trainval_count \<Rightarrow>
          (case float_of_int trainval_count of Inl e \<Rightarrow> (Inl e, made, g1) | Inr trainval_f \<Rightarrow>
          (case py_int_of_float (fmul trainval_f train_percent) of
             Inl e \<Rightarrow> (Inl e, made, g1) | Inr train_count \<Rightarrow>
          (case partition_indices sample g1 total_count trainval_count train_count of
             (Inl e, g2) \<Rightarrow> (Inl e, made, g2)
           | (Inr (trainval_indices, train_indices, val_indices, test_indices), g2) \<Rightarrow>
               (case write_file_sets abspath all_image_info' output_dir' use_absolute_path
                       generate_label_lists
                       [(''train'', train_indices), (''val'', val_indices),
                        (''test'', test_indices), (''trainval'', trainval_indices)] of
                  (Some e, files) \<Rightarrow> (Inl e, made @ files, g2)
                | (None, files) \<Rightarrow>
                    (Inr \<lparr>num_total = int total_count, num_train = train_count,
                          num_val = trainval_count - train_count,
                          num_test = int total_count - trainval_count,
                          num_trainval = trainval_count,
                          summary_output_dir = output_dir'\<rparr>,
                     made @ files, g2))))))))"

text \<open>
  The list files of the sets when every index is in range: for each set its image
  list and, when asked for, its label list.
\<close>

definition list_files ::
  "(string \<Rightarrow> string) \<Rightarrow> (string \<times> string \<times> string) list \<Rightarrow> string \<Rightarrow> bool \<Rightarrow> bool \<Rightarrow>
     (string \<times> nat list) list \<Rightarrow> effect list" where
  "list_files abspath all_image_info output_dir use_absolute_path generate_label_lists file_sets =
     concat (map (\<lambda>(set_name, indices_list).
                    WriteLines (path_join output_dir (set_name @ ''.txt''))
                      (map (get_file_path abspath all_image_info use_absolute_path) indices_list)
                    # (if generate_label_lists
                       then [WriteLines (path_join output_dir (set_name @ ''_labels.txt''))
                               (map (get_label_path abspath all_image_info use_absolute_path)
                                  indices_list)]
                       else []))
               file_sets)"

text \<open>
  What is assumed of \<^verbatim>\<open>random.sample\<close> where the size of the parts matters: from a
  population without repetition it draws \<open>k\<close> members without repetition.
\<close>

definition sample_ok :: "('g \<Rightarrow> nat list \<Rightarrow> nat \<Rightarrow> nat list \<times> 'g) \<Rightarrow> bool" where
  "sample_ok sample \<longleftrightarrow>
     (\<forall>g population k.
        k \<le> length population \<and> distinct population \<longrightarrow>
          length (fst (sample g population k)) = k \<and>
          distinct (fst (sample g population k)) \<and>
          set (fst (sample g population k)) \<subseteq> set population)"

text \<open>
  The data of the splitter's example: a directory of the hundred images
  \<^verbatim>\<open>00.jpg\<close> to \<^verbatim>\<open>99.jpg\<close> in a file system where every path exists, and a generator
  that draws the first \<open>k\<close> members.
\<close>

definition example_names :: "string list" where
  "example_names =
     concat (map (\<lambda>a. map (\<lambda>b. [a, b] @ ''.jpg'') ''0123456789'') ''0123456789'')"

definition example_world :: world where
  "example_world =
     \<lparr>path_exists = (\<lambda>p. True), isfile = (\<lambda>p. True),
      listdir = (\<lambda>d. Some example_names), readlines = (\<lambda>p. None),
      imread_ok = (\<lambda>p. True)\<rparr>"

definition example_sample :: "int \<Rightarrow> nat list \<Rightarrow> nat \<Rightarrow> nat list \<times> int" where
  "example_sample g population k = (take k population, g + 1)"

section \<open>Properties of the floating-point model\<close>

text \<open>
  The exponent that \<^const>\<open>round_double\<close> computes is the binary exponent, rounding is
  within half a unit in the last place, integers and dyadic fractions of at most 53
  bits are exact, and \<^const>\<open>float_of_int\<close> overflows from \<open>2 ^ 1024\<close> on.
\<close>

lemma bitlen_pos: "0 < a \<Longrightarrow> 1 \<le> bitlen a"
  by (auto simp: bitlen_alt_def)

lemma powi_bitlen_bounds:
  fixes a :: int
  assumes "0 < a"
  shows "(2::rat) powi (bitlen a - 1) \<le> of_int a" "of_int a < (2::rat) powi (bitlen a)"
proof -
  have b: "1 \<le> bitlen a" using assms by (rule bitlen_pos)
  have lo: "(2::int) ^ nat (bitlen a - 1) \<le> a" and hi: "a < 2 ^ nat (bitlen a)"
    using bitlen_bounds [OF assms] by auto
  have "(2::rat) powi (bitlen a - 1) = 2 ^ nat (bitlen a - 1)"
    using b by (simp add: power_int_def)
  also have "\<dots> = of_int (2 ^ nat (bitlen a - 1))" by simp
  also have "\<dots> \<le> of_int a" using lo by (simp only: of_int_le_iff)
  finally show "(2::rat) powi (bitlen a - 1) \<le> of_int a" .
  have "(of_int a :: rat) < of_int (2 ^ nat (bitlen a))" using hi by (simp only: of_int_less_iff)
  also have "\<dots> = 2 powi (bitlen a)" using b by (simp add: power_int_def)
  finally show "of_int a < (2::rat) powi (bitlen a)" .
qed

lemma ilog2_bounds:
  assumes "0 < x"
  shows "2 powi (ilog2 x) \<le> x" "x < 2 powi (ilog2 x + 1)"
proof -
  obtain a b where q: "quotient_of x = (a, b)" by (cases "quotient_of x") auto
  have b: "0 < b" using q by (rule quotient_of_denom_pos)
  have x: "x = of_int a / of_int b" using q by (rule quotient_of_div)
  have a: "0 < a" using assms b x by (simp add: zero_less_divide_iff)
  let ?k = "bitlen a - bitlen b"
  note A = powi_bitlen_bounds [OF a] and B = powi_bitlen_bounds [OF b]
  have br: "(0::rat) < of_int b" using b by simp
  have low: "(2::rat) powi (?k - 1) \<le> x"
  proof -
    have "(2::rat) powi (?k - 1) = 2 powi (bitlen a - 1) / 2 powi (bitlen b)"
      by (simp add: power_int_diff power_int_add algebra_simps)
    also have "\<dots> \<le> of_int a / of_int b"
      using A(1) B(2) br a by (intro frac_le) auto
    finally show ?thesis using x by simp
  qed
  have up: "x < (2::rat) powi (?k + 1)"
  proof -
    have "x = of_int a / of_int b" by (rule x)
    also have "\<dots> < 2 powi (bitlen a) / 2 powi (bitlen b - 1)"
      using A(2) B(1) br a by (intro frac_less) auto
    also have "\<dots> = 2 powi (?k + 1)"
      by (simp add: power_int_diff power_int_add algebra_simps)
    finally show ?thesis .
  qed
  show "2 powi (ilog2 x) \<le> x"
    using low q by (auto simp: ilog2_def Let_def)
  show "x < 2 powi (ilog2 x + 1)"
    using up q by (auto simp: ilog2_def Let_def not_le)
qed

lemma round_half_even_error: "\<bar>of_int (round_half_even z) - z\<bar> \<le> 1/2"
proof -
  have fl: "of_int \<lfloor>z\<rfloor> \<le> z" "z < of_int \<lfloor>z\<rfloor> + 1" by linarith+
  consider "z - of_int \<lfloor>z\<rfloor> < 1/2" | "1/2 < z - of_int \<lfloor>z\<rfloor>"
    | "z - of_int \<lfloor>z\<rfloor> = 1/2" by linarith
  then show ?thesis
  proof cases
    case 1
    then have "round_half_even z = \<lfloor>z\<rfloor>" by (simp add: round_half_even_def Let_def)
    then show ?thesis using fl 1 by simp
  next
    case 2
    then have "round_half_even z = \<lfloor>z\<rfloor> + 1" by (simp add: round_half_even_def Let_def)
    then show ?thesis using fl 2 by simp
  next
    case 3
    then have "round_half_even z = \<lfloor>z\<rfloor> \<or> round_half_even z = \<lfloor>z\<rfloor> + 1"
      by (simp add: round_half_even_def Let_def)
    then show ?thesis using fl 3 by auto
  qed
qed

lemma round_half_even_ge_floor: "\<lfloor>z\<rfloor> \<le> round_half_even z"
  unfolding round_half_even_def Let_def by auto

lemma round_half_even_ge: "of_int n \<le> z \<Longrightarrow> n \<le> round_half_even z"
proof -
  assume "of_int n \<le> z"
  then have "n \<le> \<lfloor>z\<rfloor>" by (simp add: le_floor_iff)
  then show ?thesis using round_half_even_ge_floor [of z] by linarith
qed

lemma round_half_even_le:
  assumes "z \<le> of_int n"
  shows "round_half_even z \<le> n"
proof (cases "z - of_int \<lfloor>z\<rfloor> < 1/2")
  case True
  then have "round_half_even z = \<lfloor>z\<rfloor>" by (simp add: round_half_even_def Let_def)
  moreover have "\<lfloor>z\<rfloor> \<le> n" using assms by (simp add: floor_le_iff)
  ultimately show ?thesis by simp
next
  case False
  then have "of_int \<lfloor>z\<rfloor> < z" by linarith
  then have "(of_int \<lfloor>z\<rfloor> :: rat) < of_int n" using assms by linarith
  then have "\<lfloor>z\<rfloor> < n" by (simp only: of_int_less_iff)
  moreover have "round_half_even z \<le> \<lfloor>z\<rfloor> + 1"
    unfolding round_half_even_def Let_def by auto
  ultimately show ?thesis by linarith
qed

lemma powi_pos: "(0::rat) < 2 powi n"
  by simp

lemma round_double_error:
  assumes "\<bar>x\<bar> \<le> 2 ^ 1023"
  shows "\<exists>y. round_double x = Finite y \<and> \<bar>y - x\<bar> \<le> \<bar>x\<bar> / 2 ^ 53 + 1 / 2 ^ 1075"
proof (cases "x = 0")
  case True
  then show ?thesis by (simp add: round_double_def)
next
  case False
  define e where "e = max (ilog2 \<bar>x\<bar>) (- 1022)"
  define q :: rat where "q = 2 powi (e - 52)"
  define y where "y = of_int (round_half_even (x / q)) * q"
  have q0: "0 < q" by (simp add: q_def)
  have xpos: "0 < \<bar>x\<bar>" using False by simp
  have "y - x = (of_int (round_half_even (x / q)) - x / q) * q"
    using q0 by (simp add: y_def field_simps)
  then have "\<bar>y - x\<bar> = \<bar>of_int (round_half_even (x / q)) - x / q\<bar> * q"
    using q0 by (simp add: abs_mult)
  also have "\<dots> \<le> 1/2 * q"
    using round_half_even_error [of "x / q"] q0 by (intro mult_right_mono) auto
  finally have err: "\<bar>y - x\<bar> \<le> q / 2" by simp
  have half: "q / 2 = 2 powi (e - 53)"
    by (simp add: q_def power_int_diff)
  have qb: "q / 2 \<le> \<bar>x\<bar> / 2 ^ 53 + 1 / 2 ^ 1075"
  proof (cases "- 1022 \<le> ilog2 \<bar>x\<bar>")
    case True
    then have "e = ilog2 \<bar>x\<bar>" by (simp add: e_def)
    then have "2 powi e \<le> \<bar>x\<bar>" using ilog2_bounds(1) [OF xpos] by simp
    then have "2 powi e / 2 ^ 53 \<le> \<bar>x\<bar> / 2 ^ 53" by (simp add: divide_right_mono)
    moreover have "q / 2 = 2 powi e / 2 ^ 53" unfolding half by (simp add: power_int_diff)
    ultimately show ?thesis by simp
  next
    case False
    then have "e = - 1022" by (simp add: e_def)
    then have "q / 2 = 1 / 2 ^ 1075" unfolding half by (simp add: power_int_minus field_simps)
    then show ?thesis by simp
  qed
  have "\<bar>y\<bar> \<le> \<bar>x\<bar> + \<bar>y - x\<bar>" by linarith
  also have "\<dots> \<le> \<bar>x\<bar> + (\<bar>x\<bar> / 2 ^ 53 + 1 / 2 ^ 1075)" using err qb by linarith
  also have "\<dots> \<le> 2 ^ 1023 + (2 ^ 1023 / 2 ^ 53 + 1 / 2 ^ 1075)"
    using assms by (intro add_mono divide_right_mono) auto
  also have "\<dots> < 2 ^ 1024" by simp
  finally have "\<not> 2 powi 1024 \<le> \<bar>y\<bar>" by simp
  then have "round_double x = Finite y"
    using \<open>x \<noteq> 0\<close> by (simp add: round_double_def Let_def e_def q_def y_def)
  then show ?thesis using err qb by auto
qed


lemma ilog2_unique:
  assumes "2 powi e \<le> x" "x < 2 powi (e + 1)"
  shows "ilog2 x = e"
proof -
  have x: "0 < x" using assms(1) by (rule less_le_trans [rotated]) simp
  note b = ilog2_bounds [OF x]
  have "(2::rat) powi e < 2 powi (ilog2 x + 1)" using assms(1) b(2) by linarith
  then have "\<not> ilog2 x + 1 \<le> e"
    using power_int_increasing [of "ilog2 x + 1" e "2::rat"] by auto
  moreover have "(2::rat) powi (ilog2 x) < 2 powi (e + 1)" using assms(2) b(1) by linarith
  then have "\<not> e + 1 \<le> ilog2 x"
    using power_int_increasing [of "e + 1" "ilog2 x" "2::rat"] by auto
  ultimately show ?thesis by linarith
qed

lemma round_double_eval:
  assumes lo: "2 powi e \<le> \<bar>x\<bar>" and hi: "\<bar>x\<bar> < 2 powi (e + 1)"
    and e: "- 1022 \<le> e" "e \<le> 1022"
  shows "round_double x =
           Finite (of_int (round_half_even (x / 2 powi (e - 52))) * 2 powi (e - 52))"
proof -
  define q :: rat where "q = 2 powi (e - 52)"
  define m where "m = round_half_even (x / q)"
  have q0: "0 < q" by (simp add: q_def)
  have x0: "x \<noteq> 0" using lo by (metis abs_zero not_le zero_less_power_int zero_less_numeral)
  have il: "ilog2 \<bar>x\<bar> = e" using lo hi by (rule ilog2_unique)
  have scale: "2 powi (e + 1) = 2 ^ 53 * q" by (simp add: q_def power_int_diff power_int_add)
  have "\<bar>x\<bar> / q \<le> 2 ^ 53" using hi q0 unfolding scale by (simp add: pos_divide_le_eq)
  then have "x / q \<le> of_int (2 ^ 53)" "of_int (- (2 ^ 53)) \<le> x / q"
    using q0 by (auto simp: abs_le_iff abs_divide field_simps)
  then have "m \<le> 2 ^ 53" "- (2 ^ 53) \<le> m"
    unfolding m_def by (simp_all only: round_half_even_le round_half_even_ge)
  then have "\<bar>m\<bar> \<le> 2 ^ 53" by linarith
  then have "(of_int \<bar>m\<bar> :: rat) \<le> of_int (2 ^ 53)" by (simp only: of_int_le_iff)
  then have "\<bar>of_int m * q\<bar> \<le> 2 ^ 53 * q" using q0 by (simp add: abs_mult)
  also have "\<dots> = 2 powi (e + 1)" by (rule scale [symmetric])
  also have "\<dots> \<le> 2 powi 1023" using e(2) by (intro power_int_increasing) auto
  also have "\<dots> < 2 powi 1024" by (intro power_int_strict_increasing) auto
  finally have "\<not> 2 powi 1024 \<le> \<bar>of_int m * q\<bar>" by simp
  then show ?thesis
    using x0 il e(1) by (simp add: round_double_def Let_def q_def m_def max_def)
qed

lemma floor_rat_divide_numeral:
  "\<lfloor>numeral a / numeral b :: rat\<rfloor> = numeral a div numeral b"
  by (metis floor_divide_of_int_eq of_int_numeral)

lemma floor_rat_minus_divide_numeral:
  "\<lfloor>- (numeral a / numeral b) :: rat\<rfloor> = - numeral a div numeral b"
  by (metis divide_minus_left floor_divide_of_int_eq of_int_neg_numeral of_int_numeral)

lemmas rd_eval = round_half_even_def Let_def power_int_minus floor_rat_divide_numeral
  floor_rat_minus_divide_numeral

lemma round_half_even_of_int: "round_half_even (of_int j) = j"
  by (simp add: round_half_even_def)

lemma round_double_exact:
  assumes n: "\<bar>n\<bar> < 2 ^ 53" and k: "- 1074 \<le> k" "k \<le> 900"
  shows "round_double (of_int n * 2 powi k) = Finite (of_int n * 2 powi k)"
proof (cases "n = 0")
  case True
  then show ?thesis by (simp add: round_double_def)
next
  case False
  define x :: rat where "x = of_int n * 2 powi k"
  define e where "e = max (ilog2 \<bar>x\<bar>) (- 1022)"
  define q :: rat where "q = 2 powi (e - 52)"
  have x0: "x \<noteq> 0" using False by (simp add: x_def)
  have xpos: "0 < \<bar>x\<bar>" using x0 by simp
  have q0: "0 < q" by (simp add: q_def)
  have absx: "\<bar>x\<bar> = of_int \<bar>n\<bar> * 2 powi k" by (simp add: x_def abs_mult)
  have "(of_int \<bar>n\<bar> :: rat) < of_int (2 ^ 53)" using n by (simp only: of_int_less_iff)
  then have "\<bar>x\<bar> < 2 ^ 53 * 2 powi k" unfolding absx by simp
  also have "\<dots> = 2 powi (k + 53)" by (simp add: power_int_add)
  finally have xlt: "\<bar>x\<bar> < 2 powi (k + 53)" .
  have "(2::rat) powi (ilog2 \<bar>x\<bar>) < 2 powi (k + 53)"
    using ilog2_bounds(1) [OF xpos] xlt by linarith
  then have "\<not> k + 53 \<le> ilog2 \<bar>x\<bar>"
    using power_int_increasing [of "k + 53" "ilog2 \<bar>x\<bar>" "2::rat"] by auto
  then have e: "e \<le> k + 52" using k(1) by (simp add: e_def)
  define j where "j = n * 2 ^ nat (k + 52 - e)"
  have "x / q = of_int n * (2 powi k / 2 powi (e - 52))" by (simp add: x_def q_def)
  also have "2 powi k / 2 powi (e - 52) = (2::rat) powi (k + 52 - e)"
    by (simp add: power_int_diff [symmetric] algebra_simps)
  also have "\<dots> = 2 ^ nat (k + 52 - e)" using e by (simp add: power_int_def)
  finally have xq: "x / q = of_int j" by (simp add: j_def)
  have y: "of_int (round_half_even (x / q)) * q = x"
    unfolding xq round_half_even_of_int using xq q0 by (simp add: field_simps)
  have "\<bar>x\<bar> < 2 powi (k + 53)" by (rule xlt)
  also have "\<dots> \<le> 2 powi 1024" using k(2) by (intro power_int_increasing) auto
  finally have "\<not> 2 powi 1024 \<le> \<bar>x\<bar>" by simp
  then have "round_double x = Finite x"
    using x0 y by (simp add: round_double_def Let_def e_def [symmetric] q_def [symmetric])
  then show ?thesis by (simp add: x_def)
qed

lemma round_double_int: "\<bar>n\<bar> < 2 ^ 53 \<Longrightarrow> round_double (of_int n) = Finite (of_int n)"
  using round_double_exact [of n 0] by simp

lemma round_double_half_int:
  "\<bar>n\<bar> < 2 ^ 53 \<Longrightarrow> round_double (of_int n / 2) = Finite (of_int n / 2)"
  using round_double_exact [of n "- 1"] by (simp add: power_int_minus field_simps)

lemma float_of_int_exact: "\<bar>n\<bar> < 2 ^ 53 \<Longrightarrow> float_of_int n = Inr (Finite (of_int n))"
  by (simp add: float_of_int_def round_double_int)




text \<open>The roundings that the examples below go through, each evaluated from its exponent.\<close>

lemma round_double_numeral:
  "(numeral k :: int) < 2 ^ 53 \<Longrightarrow> round_double (numeral k) = Finite (numeral k)"
  using round_double_int [of "numeral k"] by simp

lemma round_double_neg_numeral:
  "(numeral k :: int) < 2 ^ 53 \<Longrightarrow> round_double (- numeral k) = Finite (- numeral k)"
  using round_double_int [of "- numeral k"] by simp

lemma round_double_one: "round_double 1 = Finite 1"
  using round_double_int [of 1] by simp

lemma round_double_quarter: "round_double (1/4) = Finite (1/4)"
  using round_double_exact [of 1 "- 2"] by (simp add: power_int_minus)

lemma round_double_hundredth:
  "round_double (1/100) = Finite (5764607523034235 / 576460752303423488)"
  using round_double_eval [of "-7" "1/100"] by (simp add: rd_eval)

lemma round_double_neg_hundredth:
  "round_double (- (1/100)) = Finite (- (5764607523034235 / 576460752303423488))"
  using round_double_eval [of "-7" "- (1/100)"] by (simp add: rd_eval)

lemma round_double_51_hundredths:
  "round_double (51 * (5764607523034235 / 576460752303423488)) =
     Finite (2296835809958953 / 4503599627370496)"
  using round_double_eval [of "-1" "51 * (5764607523034235 / 576460752303423488)"]
  by (simp add: rd_eval)

lemma round_double_50_hundredths:
  "round_double (50 * (5764607523034235 / 576460752303423488)) = Finite (1/2)"
  using round_double_eval [of "-1" "50 * (5764607523034235 / 576460752303423488)"]
  by (simp add: rd_eval)

lemma round_double_15_hundredths:
  "round_double (15 * (5764607523034235 / 576460752303423488)) =
     Finite (5404319552844595 / 36028797018963968)"
  using round_double_eval [of "-3" "15 * (5764607523034235 / 576460752303423488)"]
  by (simp add: rd_eval)

lemma round_double_neg_15_hundredths:
  "round_double (15 * - (5764607523034235 / 576460752303423488)) =
     Finite (- (5404319552844595 / 36028797018963968))"
  using round_double_eval [of "-3" "15 * - (5764607523034235 / 576460752303423488)"]
  by (simp add: rd_eval)

lemma round_double_10_hundredths:
  "round_double (10 * (5764607523034235 / 576460752303423488)) =
     Finite (3602879701896397 / 36028797018963968)"
  using round_double_eval [of "-4" "10 * (5764607523034235 / 576460752303423488)"]
  by (simp add: rd_eval)

lemma round_double_neg_10_hundredths:
  "round_double (10 * - (5764607523034235 / 576460752303423488)) =
     Finite (- (3602879701896397 / 36028797018963968))"
  using round_double_eval [of "-4" "10 * - (5764607523034235 / 576460752303423488)"]
  by (simp add: rd_eval)

lemmas rd_vals = round_double_numeral round_double_neg_numeral round_double_one
  round_double_quarter round_double_hundredth round_double_neg_hundredth
  round_double_51_hundredths round_double_50_hundredths round_double_15_hundredths
  round_double_neg_15_hundredths round_double_10_hundredths round_double_neg_10_hundredths

section \<open>Properties of the coordinate conversion\<close>




subsection \<open>The round trip through the pixel box\<close>

text \<open>
  The error analysis of the round trip. Every rounding is within the relative error
  \<open>2 ^ - 53\<close> of the exact result (\<open>round_double_error\<close>); the bounds below are coarse
  consequences of it on the ranges that occur.
\<close>

lemma round_double_coarse:
  assumes "- (2 ^ 36) \<le> x" "x \<le> 2 ^ 36"
  shows "\<exists>y. round_double x = Finite y \<and> y \<le> x + 1 / 65536 \<and> x \<le> y + 1 / 65536"
proof -
  have ax: "\<bar>x\<bar> \<le> 2 ^ 36" using assms by (simp add: abs_le_iff)
  then have "\<bar>x\<bar> \<le> 2 ^ 1023" by (rule order_trans) simp
  then obtain y where y: "round_double x = Finite y"
    and err: "\<bar>y - x\<bar> \<le> \<bar>x\<bar> / 2 ^ 53 + 1 / 2 ^ 1075"
    using round_double_error by blast
  have "\<bar>x\<bar> / 2 ^ 53 \<le> 2 ^ 36 / 2 ^ 53" using ax by (rule divide_right_mono) simp
  then have "\<bar>x\<bar> / 2 ^ 53 + 1 / 2 ^ 1075 \<le> 1 / 65536" by simp
  then have "\<bar>y - x\<bar> \<le> 1 / 65536" using err by linarith
  then have "y \<le> x + 1 / 65536" "x \<le> y + 1 / 65536" by linarith+
  with y show ?thesis by blast
qed

lemma round_double_fine:
  assumes "- 8 \<le> x" "x \<le> 8"
  shows "\<exists>y. round_double x = Finite y \<and> y \<le> x + 1 / 2 ^ 49 \<and> x \<le> y + 1 / 2 ^ 49"
proof -
  have ax: "\<bar>x\<bar> \<le> 8" using assms by (simp add: abs_le_iff)
  then have "\<bar>x\<bar> \<le> 2 ^ 1023" by (rule order_trans) simp
  then obtain y where y: "round_double x = Finite y"
    and err: "\<bar>y - x\<bar> \<le> \<bar>x\<bar> / 2 ^ 53 + 1 / 2 ^ 1075"
    using round_double_error by blast
  have "\<bar>x\<bar> / 2 ^ 53 \<le> 8 / 2 ^ 53" using ax by (rule divide_right_mono) simp
  then have "\<bar>x\<bar> / 2 ^ 53 + 1 / 2 ^ 1075 \<le> 1 / 2 ^ 49" by simp
  then have "\<bar>y - x\<bar> \<le> 1 / 2 ^ 49" using err by linarith
  then have "y \<le> x + 1 / 2 ^ 49" "x \<le> y + 1 / 2 ^ 49" by linarith+
  with y show ?thesis by blast
qed

lemma py_int_of_float_error:
  "\<exists>n. py_int_of_float (Finite a) = Inr n \<and> of_int n < a + 1 \<and> a < of_int n + 1"
proof (cases "0 \<le> a")
  case True
  have "of_int \<lfloor>a\<rfloor> < a + 1" "a < of_int \<lfloor>a\<rfloor> + 1" by linarith+
  with True show ?thesis by (simp add: py_int_of_float_def)
next
  case False
  have "of_int \<lceil>a\<rceil> < a + 1" "a < of_int \<lceil>a\<rceil> + 1" by linarith+
  with False show ?thesis by (simp add: py_int_of_float_def)
qed

lemma of_int_range:
  fixes P :: int
  assumes "0 < P" "P \<le> 2 ^ 32"
  shows "(1::rat) \<le> of_int P" "(of_int P :: rat) \<le> 4294967296"
proof -
  have "(of_int 1 :: rat) \<le> of_int P" using assms(1) by (simp only: of_int_le_iff)
  then show "(1::rat) \<le> of_int P" by simp
  have "(of_int P :: rat) \<le> of_int (2 ^ 32)" using assms(2) by (simp only: of_int_le_iff)
  then show "(of_int P :: rat) \<le> 4294967296" by simp
qed

lemma bndbox_coord_close:
  fixes P :: int and c s :: rat and upper :: bool
  assumes P: "0 < P" "P \<le> 2 ^ 32" and c: "0 \<le> c" "c \<le> 1" and s: "0 \<le> s" "s \<le> 1"
  defines "sg \<equiv> (if upper then 1 else - 1 :: rat)"
  shows "\<exists>n. bndbox_coord upper (Finite c) (Finite s) P = Inr n \<and>
            of_int n < c * of_int P + 1 + sg * (s * of_int P / 2) + 1 + 1 / 8192 \<and>
            c * of_int P + 1 + sg * (s * of_int P / 2) < of_int n + 1 + 1 / 8192"
proof -
  define Pr :: rat where "Pr = of_int P"
  have Pr: "1 \<le> Pr" "Pr \<le> 4294967296" unfolding Pr_def using of_int_range [OF P] by auto
  have Pf: "float_of_int P = Inr (Finite Pr)"
    unfolding Pr_def using P by (intro float_of_int_exact) auto
  define cP where "cP = c * Pr"
  have cP: "0 \<le> cP" "cP \<le> 4294967296"
    unfolding cP_def using c Pr mult_mono [of c 1 Pr 4294967296] by auto
  obtain t1 where t1: "round_double cP = Finite t1" "t1 \<le> cP + 1 / 65536" "cP \<le> t1 + 1 / 65536"
    using round_double_coarse [of cP] cP by auto
  have "- (2 ^ 36) \<le> t1 + 1" "t1 + 1 \<le> 2 ^ 36" using t1(2,3) cP by simp_all
  then obtain t2 where t2: "round_double (t1 + 1) = Finite t2"
    "t2 \<le> t1 + 1 + 1 / 65536" "t1 + 1 \<le> t2 + 1 / 65536"
    using round_double_coarse [of "t1 + 1"] by auto
  define hs where "hs = s * (1/2)"
  have hs: "0 \<le> hs" "hs \<le> 1/2" unfolding hs_def using s by simp_all
  then have "- 8 \<le> hs" "hs \<le> 8" by simp_all
  then obtain s1 where s1: "round_double hs = Finite s1"
    "s1 \<le> hs + 1 / 2 ^ 49" "hs \<le> s1 + 1 / 2 ^ 49"
    using round_double_fine [of hs] by auto
  define s1P where "s1P = s1 * Pr"
  define hsP where "hsP = hs * Pr"
  have hsP: "0 \<le> hsP" "hsP \<le> 2147483648"
    unfolding hsP_def using hs Pr mult_mono [of hs "1/2" Pr 4294967296] by auto
  have amp: "s1P \<le> hsP + 1 / 65536" "hsP \<le> s1P + 1 / 65536"
  proof -
    have "(s1 - hs) * Pr \<le> 1 / 2 ^ 49 * 4294967296"
    proof (cases "0 \<le> s1 - hs")
      case True
      then show ?thesis using s1(2) Pr by (intro mult_mono) auto
    next
      case False
      then have "(s1 - hs) * Pr \<le> 0" using Pr by (simp add: mult_le_0_iff)
      then show ?thesis by simp
    qed
    then show "s1P \<le> hsP + 1 / 65536" by (simp add: s1P_def hsP_def algebra_simps)
    have "(hs - s1) * Pr \<le> 1 / 2 ^ 49 * 4294967296"
    proof (cases "0 \<le> hs - s1")
      case True
      then show ?thesis using s1(3) Pr by (intro mult_mono) auto
    next
      case False
      then have "(hs - s1) * Pr \<le> 0" using Pr by (simp add: mult_le_0_iff)
      then show ?thesis by simp
    qed
    then show "hsP \<le> s1P + 1 / 65536" by (simp add: s1P_def hsP_def algebra_simps)
  qed
  have "- (2 ^ 36) \<le> s1P" "s1P \<le> 2 ^ 36" using amp hsP by simp_all
  then obtain s2 where s2: "round_double s1P = Finite s2"
    "s2 \<le> s1P + 1 / 65536" "s1P \<le> s2 + 1 / 65536"
    using round_double_coarse [of s1P] by auto
  have sg: "sg = 1 \<or> sg = - 1" by (simp add: sg_def)
  define u where "u = t2 + sg * s2"
  have "- (2 ^ 36) \<le> u \<and> u \<le> 2 ^ 36"
    using sg t1(2,3) t2(2,3) s2(2,3) amp hsP cP unfolding u_def by auto
  then obtain a where a: "round_double u = Finite a" "a \<le> u + 1 / 65536" "u \<le> a + 1 / 65536"
    using round_double_coarse [of u] by auto
  obtain n where n: "py_int_of_float (Finite a) = Inr n" "of_int n < a + 1" "a < of_int n + 1"
    using py_int_of_float_error by blast
  have run: "bndbox_coord upper (Finite c) (Finite s) P = Inr n"
    using Pf t1(1) t2(1) s1(1) s2(1) a(1) n(1)
    by (auto simp: bndbox_coord_def Let_def fsub_def sg_def cP_def hs_def s1P_def u_def)
  have "of_int n < cP + 1 + sg * hsP + 1 + 1 / 8192 \<and> cP + 1 + sg * hsP < of_int n + 1 + 1 / 8192"
    using sg n(2,3) a(2,3) t2(2,3) t1(2,3) s2(2,3) amp unfolding u_def by auto
  with run show ?thesis by (auto simp: Pr_def cP_def hsP_def hs_def)
qed

lemma abs_mult_bound:
  fixes x y :: rat
  assumes "\<bar>x\<bar> \<le> X" "\<bar>y\<bar> \<le> Y"
  shows "\<bar>x * y\<bar> \<le> X * Y"
  unfolding abs_mult using assms by (intro mult_mono) auto

lemma inverse_close:
  fixes P :: int
  assumes P: "0 < P" "P \<le> 2 ^ 32"
  shows "\<exists>dw. py_truediv (Finite 1) (Finite (of_int P)) = Inr (Finite dw) \<and>
           \<bar>dw * of_int P - 1\<bar> \<le> 1 / 2 ^ 52"
proof -
  define Pr :: rat where "Pr = of_int P"
  have Pr: "1 \<le> Pr" "Pr \<le> 4294967296" unfolding Pr_def using of_int_range [OF P] by auto
  have inv: "0 < 1 / Pr" "1 / Pr \<le> 1" using Pr by simp_all
  then have "\<bar>1 / Pr\<bar> \<le> 1" by simp
  then have "\<bar>1 / Pr\<bar> \<le> 2 ^ 1023" by (rule order_trans) simp
  then obtain dw where dw: "round_double (1 / Pr) = Finite dw"
    and err: "\<bar>dw - 1 / Pr\<bar> \<le> \<bar>1 / Pr\<bar> / 2 ^ 53 + 1 / 2 ^ 1075"
    using round_double_error by blast
  have "dw * Pr - 1 = (dw - 1 / Pr) * Pr" using Pr by (simp add: field_simps)
  then have "\<bar>dw * Pr - 1\<bar> = \<bar>dw - 1 / Pr\<bar> * Pr" using Pr by (simp add: abs_mult)
  also have "\<dots> \<le> (\<bar>1 / Pr\<bar> / 2 ^ 53 + 1 / 2 ^ 1075) * Pr"
    using err Pr by (intro mult_right_mono) auto
  also have "\<dots> = 1 / 2 ^ 53 + Pr / 2 ^ 1075" using Pr by (simp add: field_simps)
  also have "\<dots> \<le> 1 / 2 ^ 53 + 4294967296 / 2 ^ 1075"
    using Pr(2) by (intro add_left_mono divide_right_mono) auto
  also have "\<dots> \<le> 1 / 2 ^ 52" by simp
  finally have close: "\<bar>dw * Pr - 1\<bar> \<le> 1 / 2 ^ 52" .
  have "Finite Pr \<noteq> Finite 0" using Pr by simp
  then have "py_truediv (Finite 1) (Finite Pr) = Inr (Finite dw)"
    using dw by (simp add: py_truediv_def)
  with close show ?thesis unfolding Pr_def by blast
qed

lemma scale_close:
  fixes P :: int and v dw :: rat
  assumes P: "0 < P" "P \<le> 2 ^ 32"
    and v: "\<bar>v\<bar> \<le> 4 * of_int P"
    and dw: "\<bar>dw * of_int P - 1\<bar> \<le> 1 / 2 ^ 52"
  shows "\<exists>r. fmul (Finite v) (Finite dw) = Finite r \<and> \<bar>r * of_int P - v\<bar> \<le> 1 / 65536"
proof -
  define Pr :: rat where "Pr = of_int P"
  have Pr: "1 \<le> Pr" "Pr \<le> 4294967296" unfolding Pr_def using of_int_range [OF P] by auto
  define a where "a = v / Pr"
  define b where "b = dw * Pr"
  have va: "v = a * Pr" and dwb: "dw = b / Pr" using Pr by (simp_all add: a_def b_def)
  have a4: "\<bar>a\<bar> \<le> 4"
    using v Pr unfolding a_def Pr_def [symmetric] by (simp add: abs_divide pos_divide_le_eq)
  have b1: "\<bar>b - 1\<bar> \<le> 1 / 2 ^ 52" using dw by (simp add: b_def Pr_def)
  then have "b - 1 \<le> 1 / 2 ^ 52" "- (b - 1) \<le> 1 / 2 ^ 52" by (simp_all only: abs_le_iff)
  then have "b \<le> 2" "- b \<le> 2" by simp_all
  then have b2: "\<bar>b\<bar> \<le> 2" by (simp only: abs_le_iff)
  have p: "v * dw = a * b" using Pr by (simp add: va dwb)
  have "\<bar>a * b\<bar> \<le> 4 * 2" using a4 b2 by (rule abs_mult_bound)
  then have "- 8 \<le> v * dw" "v * dw \<le> 8" unfolding p by (simp_all add: abs_le_iff)
  then obtain r where r: "round_double (v * dw) = Finite r"
    "r \<le> v * dw + 1 / 2 ^ 49" "v * dw \<le> r + 1 / 2 ^ 49"
    using round_double_fine [of "v * dw"] by auto
  then have "r - a * b \<le> 1 / 2 ^ 49" "- (r - a * b) \<le> 1 / 2 ^ 49" unfolding p by simp_all
  then have rab: "\<bar>r - a * b\<bar> \<le> 1 / 2 ^ 49" by (simp only: abs_le_iff)
  have eq: "r * Pr - v = (r - a * b) * Pr + a * Pr * (b - 1)" by (simp add: va algebra_simps)
  have e1: "\<bar>(r - a * b) * Pr\<bar> \<le> 1 / 2 ^ 49 * 4294967296"
    using rab Pr by (intro abs_mult_bound) auto
  have e2: "\<bar>a * Pr * (b - 1)\<bar> \<le> (4 * 4294967296) * (1 / 2 ^ 52)"
  proof (rule abs_mult_bound)
    show "\<bar>a * Pr\<bar> \<le> 4 * 4294967296" using a4 Pr by (intro abs_mult_bound) auto
    show "\<bar>b - 1\<bar> \<le> 1 / 2 ^ 52" by (rule b1)
  qed
  have "\<bar>r * Pr - v\<bar> \<le> \<bar>(r - a * b) * Pr\<bar> + \<bar>a * Pr * (b - 1)\<bar>"
    unfolding eq by (rule abs_triangle_ineq)
  also have "\<dots> \<le> 1 / 2 ^ 49 * 4294967296 + (4 * 4294967296) * (1 / 2 ^ 52)"
    using e1 e2 by (rule add_mono)
  also have "\<dots> \<le> 1 / 65536" by simp
  finally have "\<bar>r * Pr - v\<bar> \<le> 1 / 65536" .
  then show ?thesis using r(1) by (auto simp: Pr_def)
qed

lemma abs_less_divide:
  fixes d Pr :: rat
  assumes "0 < Pr" "- 3 < d * Pr" "d * Pr < 3"
  shows "\<bar>d\<bar> < 3 / Pr"
proof -
  have "- (3 / Pr) < d" using assms(1,2) by (simp add: field_simps)
  moreover have "d < 3 / Pr" using assms(1,3) by (simp add: field_simps)
  ultimately show ?thesis by (simp add: abs_less_iff)
qed

lemma axis_roundtrip:
  fixes P :: int and c s :: rat
  assumes P: "0 < P" "P \<le> 2 ^ 32" and c: "0 \<le> c" "c \<le> 1" and s: "0 \<le> s" "s \<le> 1"
  shows "\<exists>lo hi dw x' s'.
           bndbox_coord False (Finite c) (Finite s) P = Inr lo \<and>
           bndbox_coord True (Finite c) (Finite s) P = Inr hi \<and>
           float_of_int P = Inr (Finite (of_int P)) \<and>
           py_truediv (Finite 1) (Finite (of_int P)) = Inr (Finite dw) \<and>
           fmul (ieee_div (fadd (round_double (of_int lo)) (round_double (of_int hi))) (Finite 2))
             (Finite dw) = Finite x' \<and>
           fmul (fsub (round_double (of_int hi)) (round_double (of_int lo))) (Finite dw) = Finite s' \<and>
           \<bar>x' - c\<bar> < 3 / of_int P \<and> \<bar>s' - s\<bar> < 3 / of_int P"
proof -
  define Pr :: rat where "Pr = of_int P"
  have Pr: "1 \<le> Pr" "Pr \<le> 4294967296" unfolding Pr_def using of_int_range [OF P] by auto
  define cP where "cP = c * Pr"
  define hsP where "hsP = s * Pr / 2"
  have cP: "0 \<le> cP" "cP \<le> Pr"
    unfolding cP_def using c Pr mult_right_mono [of c 1 Pr] by auto
  have hsP: "0 \<le> hsP" "hsP \<le> Pr / 2"
    unfolding hsP_def using s Pr mult_right_mono [of s 1 Pr] by auto
  obtain lo where lo: "bndbox_coord False (Finite c) (Finite s) P = Inr lo"
    "of_int lo < cP + 1 - hsP + 1 + 1 / 8192" "cP + 1 - hsP < of_int lo + 1 + 1 / 8192"
    using bndbox_coord_close [OF P c s, of False] by (auto simp: cP_def hsP_def Pr_def)
  obtain hi where hi: "bndbox_coord True (Finite c) (Finite s) P = Inr hi"
    "of_int hi < cP + 1 + hsP + 1 + 1 / 8192" "cP + 1 + hsP < of_int hi + 1 + 1 / 8192"
    using bndbox_coord_close [OF P c s, of True] by (auto simp: cP_def hsP_def Pr_def)
  have lo_r: "(of_int lo :: rat) < of_int (2 ^ 34)" "(of_int (- (2 ^ 34)) :: rat) < of_int lo"
    using lo(2,3) cP hsP Pr by simp_all
  have hi_r: "(of_int hi :: rat) < of_int (2 ^ 34)" "(of_int (- (2 ^ 34)) :: rat) < of_int hi"
    using hi(2,3) cP hsP Pr by simp_all
  have lo_i: "lo < 2 ^ 34" "- (2 ^ 34) < lo" using lo_r by (simp_all only: of_int_less_iff)
  have hi_i: "hi < 2 ^ 34" "- (2 ^ 34) < hi" using hi_r by (simp_all only: of_int_less_iff)
  have ex_lo: "round_double (of_int lo) = Finite (of_int lo)"
    using lo_i by (intro round_double_int) simp
  have ex_hi: "round_double (of_int hi) = Finite (of_int hi)"
    using hi_i by (intro round_double_int) simp
  have "round_double (of_int (lo + hi)) = Finite (of_int (lo + hi))"
    using lo_i hi_i by (intro round_double_int) simp
  then have ex_sum: "fadd (Finite (of_int lo)) (Finite (of_int hi)) = Finite (of_int (lo + hi))"
    by simp
  have ex_half: "ieee_div (Finite (of_int (lo + hi))) (Finite 2) = Finite (of_int (lo + hi) / 2)"
    using lo_i hi_i round_double_half_int [of "lo + hi"] by simp
  have "round_double (of_int (hi - lo)) = Finite (of_int (hi - lo))"
    using lo_i hi_i by (intro round_double_int) simp
  then have ex_diff: "fsub (Finite (of_int hi)) (Finite (of_int lo)) = Finite (of_int (hi - lo))"
    by (simp add: fsub_def)
  define v1 :: rat where "v1 = of_int (lo + hi) / 2"
  define v2 :: rat where "v2 = of_int (hi - lo)"
  have v1: "cP - 1 / 8192 < v1" "v1 < cP + 2 + 1 / 8192"
    using lo(2,3) hi(2,3) unfolding v1_def by simp_all
  have v2: "2 * hsP - 2 - 1 / 4096 < v2" "v2 < 2 * hsP + 2 + 1 / 4096"
    using lo(2,3) hi(2,3) unfolding v2_def by simp_all
  have "- (4 * Pr) \<le> v1" "v1 \<le> 4 * Pr" using v1 cP Pr by simp_all
  then have v1b: "\<bar>v1\<bar> \<le> 4 * of_int P" unfolding Pr_def by (simp only: abs_le_iff) simp
  have "- (4 * Pr) \<le> v2" "v2 \<le> 4 * Pr" using v2 hsP Pr by simp_all
  then have v2b: "\<bar>v2\<bar> \<le> 4 * of_int P" unfolding Pr_def by (simp only: abs_le_iff) simp
  obtain dw where dw: "py_truediv (Finite 1) (Finite (of_int P)) = Inr (Finite dw)"
    "\<bar>dw * of_int P - 1\<bar> \<le> 1 / 2 ^ 52"
    using inverse_close [OF P] by blast
  obtain x' where x': "fmul (Finite v1) (Finite dw) = Finite x'" "\<bar>x' * of_int P - v1\<bar> \<le> 1 / 65536"
    using scale_close [OF P v1b dw(2)] by blast
  obtain s' where s': "fmul (Finite v2) (Finite dw) = Finite s'" "\<bar>s' * of_int P - v2\<bar> \<le> 1 / 65536"
    using scale_close [OF P v2b dw(2)] by blast
  have x2: "x' * Pr - v1 \<le> 1 / 65536" "- (x' * Pr - v1) \<le> 1 / 65536"
    using x'(2) unfolding Pr_def by (simp_all only: abs_le_iff)
  have s2: "s' * Pr - v2 \<le> 1 / 65536" "- (s' * Pr - v2) \<le> 1 / 65536"
    using s'(2) unfolding Pr_def by (simp_all only: abs_le_iff)
  have "- 3 < (x' - c) * Pr" "(x' - c) * Pr < 3"
    using x2 v1 by (simp_all add: algebra_simps cP_def)
  then have cx: "\<bar>x' - c\<bar> < 3 / Pr" using Pr by (intro abs_less_divide) auto
  have "- 3 < (s' - s) * Pr" "(s' - s) * Pr < 3"
    using s2 v2 by (simp_all add: algebra_simps hsP_def)
  then have cs: "\<bar>s' - s\<bar> < 3 / Pr" using Pr by (intro abs_less_divide) auto
  have Pf: "float_of_int P = Inr (Finite (of_int P))"
    using P by (intro float_of_int_exact) auto
  have m1: "fmul (ieee_div (fadd (round_double (of_int lo)) (round_double (of_int hi))) (Finite 2))
             (Finite dw) = Finite x'"
    unfolding ex_lo ex_hi ex_sum ex_half using x'(1) by (simp add: v1_def)
  have m2: "fmul (fsub (round_double (of_int hi)) (round_double (of_int lo))) (Finite dw) = Finite s'"
    unfolding ex_lo ex_hi ex_diff using s'(1) by (simp add: v2_def)
  show ?thesis
    using lo(1) hi(1) Pf dw(1) m1 m2 cx cs unfolding Pr_def by blast
qed

text \<open>
  Claim C1, as stated: denormalising a normalised box with the TXT-to-XML path and
  normalising it again returns the box within epsilon. It fails: for the box
  \<open>(0.5, 0.5, 0.5, 0.5)\<close> in a 100 by 100 image the pixel box written is
  \<open>(26, 26, 76, 76)\<close> and the centre read back is the double that Python prints as
  \<^verbatim>\<open>0.51\<close>, one hundredth away.
\<close>

theorem normalize_denormalize_counterexample:
  "normalize_denormalize (100, 100) (Finite (1/2), Finite (1/2), Finite (1/2), Finite (1/2)) =
     Inr (Finite (2296835809958953 / 4503599627370496),
          Finite (2296835809958953 / 4503599627370496), Finite (1/2), Finite (1/2)) \<and>
   \<not> within_eps (1/1000000) (Finite (1/2), Finite (1/2), Finite (1/2), Finite (1/2))
       (Finite (2296835809958953 / 4503599627370496),
        Finite (2296835809958953 / 4503599627370496), Finite (1/2), Finite (1/2))"
proof -
  have P: "float_of_int 100 = Inr (Finite 100)"
    using float_of_int_exact [of 100] by simp
  have lo: "bndbox_coord False (Finite (1/2)) (Finite (1/2)) 100 = Inr 26"
    by (simp add: bndbox_coord_def P fsub_def py_int_of_float_def rd_vals)
  have hi: "bndbox_coord True (Finite (1/2)) (Finite (1/2)) 100 = Inr 76"
    by (simp add: bndbox_coord_def P py_int_of_float_def rd_vals)
  have cc: "convert_coordinate (100, 100) (Finite 26, Finite 76, Finite 26, Finite 76) =
     Inr (Finite (2296835809958953 / 4503599627370496),
          Finite (2296835809958953 / 4503599627370496), Finite (1/2), Finite (1/2))"
    by (simp add: convert_coordinate_def P py_truediv_def fsub_def rd_vals
        rd_vals [simplified])
  have "normalize_denormalize (100, 100) (Finite (1/2), Finite (1/2), Finite (1/2), Finite (1/2)) =
     Inr (Finite (2296835809958953 / 4503599627370496),
          Finite (2296835809958953 / 4503599627370496), Finite (1/2), Finite (1/2))"
    by (simp add: normalize_denormalize_def txt_to_xml_bndbox_def lo hi cc rd_vals)
  moreover have "\<not> within_eps (1/1000000) (Finite (1/2), Finite (1/2), Finite (1/2), Finite (1/2))
       (Finite (2296835809958953 / 4503599627370496),
        Finite (2296835809958953 / 4503599627370496), Finite (1/2), Finite (1/2))"
    by (simp add: within_eps_def close_to_def)
  ultimately show ?thesis by simp
qed

text \<open>
  Claim C1, amended: for a normalised box with every field in \<open>[0, 1]\<close> and an image
  whose width and height are positive and at most \<open>2 ^ 32\<close>, the round trip, computed
  in doubles, raises nothing and returns finite values within the quantisation of the
  integer pixel coordinates: the centre and the extent within three pixels, that is
  within \<open>3 / width\<close> horizontally and \<open>3 / height\<close> vertically.
\<close>

theorem normalize_denormalize_quantised:
  fixes W H :: int and cx cy w h :: rat
  assumes "0 < W" "W \<le> 2 ^ 32" "0 < H" "H \<le> 2 ^ 32"
    and "0 \<le> cx" "cx \<le> 1" "0 \<le> cy" "cy \<le> 1" "0 \<le> w" "w \<le> 1" "0 \<le> h" "h \<le> 1"
  shows "\<exists>cx' cy' w' h'.
           normalize_denormalize (W, H) (Finite cx, Finite cy, Finite w, Finite h) =
             Inr (Finite cx', Finite cy', Finite w', Finite h') \<and>
           \<bar>cx' - cx\<bar> < 3 / of_int W \<and> \<bar>cy' - cy\<bar> < 3 / of_int H \<and>
           \<bar>w' - w\<bar> < 3 / of_int W \<and> \<bar>h' - h\<bar> < 3 / of_int H"
proof -
  obtain xlo xhi dw cx' w' where
    X: "bndbox_coord False (Finite cx) (Finite w) W = Inr xlo"
       "bndbox_coord True (Finite cx) (Finite w) W = Inr xhi"
       "float_of_int W = Inr (Finite (of_int W))"
       "py_truediv (Finite 1) (Finite (of_int W)) = Inr (Finite dw)"
       "fmul (ieee_div (fadd (round_double (of_int xlo)) (round_double (of_int xhi))) (Finite 2))
          (Finite dw) = Finite cx'"
       "fmul (fsub (round_double (of_int xhi)) (round_double (of_int xlo))) (Finite dw) = Finite w'"
    and Xb: "\<bar>cx' - cx\<bar> < 3 / of_int W" "\<bar>w' - w\<bar> < 3 / of_int W"
    using axis_roundtrip [OF assms(1,2,5,6,9,10)] by blast
  obtain ylo yhi dh cy' h' where
    Y: "bndbox_coord False (Finite cy) (Finite h) H = Inr ylo"
       "bndbox_coord True (Finite cy) (Finite h) H = Inr yhi"
       "float_of_int H = Inr (Finite (of_int H))"
       "py_truediv (Finite 1) (Finite (of_int H)) = Inr (Finite dh)"
       "fmul (ieee_div (fadd (round_double (of_int ylo)) (round_double (of_int yhi))) (Finite 2))
          (Finite dh) = Finite cy'"
       "fmul (fsub (round_double (of_int yhi)) (round_double (of_int ylo))) (Finite dh) = Finite h'"
    and Yb: "\<bar>cy' - cy\<bar> < 3 / of_int H" "\<bar>h' - h\<bar> < 3 / of_int H"
    using axis_roundtrip [OF assms(3,4,7,8,11,12)] by blast
  have two: "\<And>a. py_truediv a (Finite 2) = Inr (ieee_div a (Finite 2))"
    by (simp add: py_truediv_def)
  have "normalize_denormalize (W, H) (Finite cx, Finite cy, Finite w, Finite h) =
          Inr (Finite cx', Finite cy', Finite w', Finite h')"
    by (simp add: normalize_denormalize_def txt_to_xml_bndbox_def convert_coordinate_def
        X Y two Let_def)
  with Xb Yb show ?thesis by blast
qed

theorem normalize_denormalize_quantised_witness:
  "\<exists>cx' cy' w' h'.
     normalize_denormalize (640, 480) (Finite (1/2), Finite (1/4), Finite (3/8), Finite (1/8)) =
       Inr (Finite cx', Finite cy', Finite w', Finite h') \<and>
     \<bar>cx' - 1/2\<bar> < 3 / 640 \<and> \<bar>cy' - 1/4\<bar> < 3 / 480 \<and>
     \<bar>w' - 3/8\<bar> < 3 / 640 \<and> \<bar>h' - 1/8\<bar> < 3 / 480"
  using normalize_denormalize_quantised [of 640 480 "1/2" "1/4" "3/8" "1/8"] by simp

section \<open>Properties of the distribution analyzer\<close>

lemma split_from_spaces:
  "\<forall>c \<in> set ws. is_space c \<Longrightarrow> split_from cur ws = split_from cur []"
proof (induction ws arbitrary: cur)
  case Nil
  show ?case by simp
next
  case (Cons c ws)
  then have "split_from [] ws = split_from [] []" by simp
  with Cons.prems show ?case by simp
qed

lemma split_from_append_spaces:
  "\<forall>c \<in> set ws. is_space c \<Longrightarrow> split_from cur (t @ ws) = split_from cur t"
proof (induction t arbitrary: cur)
  case Nil
  then show ?case using split_from_spaces [of ws cur] by simp
next
  case (Cons c t)
  then show ?case by simp
qed

lemma split_from_dropWhile: "split_from [] (dropWhile is_space s) = split_from [] s"
  by (induction s) simp_all

lemma rstrip_decomp:
  "s = rev (dropWhile is_space (rev s)) @ rev (takeWhile is_space (rev s))"
proof -
  have "rev (takeWhile is_space (rev s) @ dropWhile is_space (rev s)) = s"
    by (simp only: takeWhile_dropWhile_id rev_rev_ident)
  then show ?thesis by (simp only: rev_append)
qed

lemma py_split_strip: "py_split (strip l) = py_split l"
proof -
  let ?d = "dropWhile is_space l"
  have sp: "\<forall>c \<in> set (rev (takeWhile is_space (rev ?d))). is_space c"
    by (auto dest: set_takeWhileD)
  have "split_from [] (strip l) = split_from [] (strip l @ rev (takeWhile is_space (rev ?d)))"
    using split_from_append_spaces [OF sp, of "[]" "strip l"] by simp
  also have "strip l @ rev (takeWhile is_space (rev ?d)) = ?d"
    unfolding strip_def using rstrip_decomp [of ?d] by simp
  finally show ?thesis by (simp add: py_split_def split_from_dropWhile)
qed

lemma strip_empty_split: "strip l = [] \<Longrightarrow> py_split l = []"
  using py_split_strip [of l] by (simp add: py_split_def)

text \<open>
  Claim C10: a line read by the analyzer is counted as one object exactly when it has at
  least five whitespace-separated tokens and \<^verbatim>\<open>int\<close> accepts the first one. With five
  tokens and a first token that \<^verbatim>\<open>int\<close> rejects the file is abandoned with the
  exception; with fewer than five tokens the line is passed over. The other tokens are
  never looked at: the outcome is a function of the number of tokens and the first one.
\<close>

theorem read_lines_counts_line:
  "(5 \<le> length (py_split l) \<and> py_int (hd (py_split l)) = Inr c \<longrightarrow>
      read_lines (l # ls) lc fo n =
        read_lines ls (counter_incr c lc) (counter_incr c fo) (n + 1)) \<and>
   (5 \<le> length (py_split l) \<and> py_int (hd (py_split l)) = Inl e \<longrightarrow>
      read_lines (l # ls) lc fo n = (lc, Inl e)) \<and>
   (length (py_split l) < 5 \<longrightarrow> read_lines (l # ls) lc fo n = read_lines ls lc fo n)"
proof (cases "strip l = []")
  case True
  then show ?thesis using strip_empty_split [OF True] by simp
next
  case False
  then show ?thesis by (simp add: py_split_strip Let_def)
qed

theorem read_lines_counts_line_witness:
  "read_lines [''3 a b c d''] [] [] 0 = ([(3, 1)], Inr ([(3, 1)], 1)) \<and>
   read_lines [''x 0.5 0.5 0.5 0.5''] [] [] 0 = ([], Inl ValueError) \<and>
   read_lines [''3 0.5 0.5''] [] [] 0 = ([], Inr ([], 0))"
  using read_lines_counts_line [of "''3 a b c d''" 3 "[]" "[]" "[]" 0 ValueError]
    read_lines_counts_line [of "''x 0.5 0.5 0.5 0.5''" 0 "[]" "[]" "[]" 0 ValueError]
    read_lines_counts_line [of "''3 0.5 0.5''" 3 "[]" "[]" "[]" 0 ValueError]
  by (simp add: py_split_def py_int_def strip_def is_space_def is_digit_def digit_val_def
      int_unsigned_def)

text \<open>The object count of a file does not depend on the counters it starts from.\<close>

lemma read_lines_count_indep:
  "map_sum id snd (snd (read_lines ls lc fo n)) = map_sum id snd (snd (read_lines ls lc' fo' n))"
proof (induction ls arbitrary: lc fo lc' fo' n)
  case Nil
  show ?case by simp
next
  case (Cons l ls)
  let ?parts = "py_split (strip l)"
  show ?case
  proof (cases "strip l \<noteq> [] \<and> 5 \<le> length ?parts")
    case False
    then show ?thesis using Cons.IH [of lc fo n lc' fo'] by (auto simp: Let_def)
  next
    case True
    show ?thesis
    proof (cases "py_int (hd ?parts)")
      case (Inl e)
      with True show ?thesis by (simp add: Let_def)
    next
      case (Inr c)
      with True show ?thesis
        using Cons.IH [of "counter_incr c lc" "counter_incr c fo" "n + 1"
            "counter_incr c lc'" "counter_incr c fo'"]
        by (simp add: Let_def)
    qed
  qed
qed

lemma counter_incr_nonempty: "counter_incr k c \<noteq> []"
  by (cases c) (auto split: if_splits)

lemma read_lines_keeps_nonempty: "lc \<noteq> [] \<Longrightarrow> fst (read_lines ls lc fo n) \<noteq> []"
  by (induction ls arbitrary: lc fo n) (auto simp: Let_def counter_incr_nonempty split: sum.splits)

lemma read_lines_count_mono: "snd (read_lines ls lc fo n) = Inr (fo', n') \<Longrightarrow> n \<le> n'"
proof (induction ls arbitrary: lc fo n)
  case Nil
  then show ?case by simp
next
  case (Cons l ls)
  then show ?case
    by (fastforce simp: Let_def split: if_splits sum.splits)
qed

lemma read_lines_counted_nonempty:
  "snd (read_lines ls lc fo n) = Inr (fo', n') \<Longrightarrow> n < n' \<Longrightarrow> fst (read_lines ls lc fo n) \<noteq> []"
proof (induction ls arbitrary: lc fo n)
  case Nil
  then show ?case by simp
next
  case (Cons l ls)
  then show ?case
    by (auto simp: Let_def read_lines_keeps_nonempty counter_incr_nonempty
        split: if_splits sum.splits)
qed

lemma file_object_count_read:
  assumes "file_object_count f = Some n"
  obtains ls lc' fo' where "snd f = Some ls" "read_lines ls lc [] 0 = (lc', Inr (fo', n))"
proof -
  from assms obtain ls fo where ls: "snd f = Some ls"
    and r: "snd (read_lines ls [] [] 0) = Inr (fo, n)"
    by (auto simp: file_object_count_def split: option.splits sum.splits)
  have "map_sum id snd (snd (read_lines ls lc [] 0)) = Inr n"
    using read_lines_count_indep [of ls lc "[]" 0 "[]" "[]"] r by simp
  then obtain fo' where "snd (read_lines ls lc [] 0) = Inr (fo', n)"
    by (cases "snd (read_lines ls lc [] 0)") auto
  then have "read_lines ls lc [] 0 = (fst (read_lines ls lc [] 0), Inr (fo', n))"
    by (metis prod.collapse)
  with ls show ?thesis using that by blast
qed

lemma process_label_file_histogram:
  assumes "file_object_count f = Some n"
  shows "objects_per_image (process_label_file f a) = counter_incr n (objects_per_image a)"
    and "total_label_files (process_label_file f a) = total_label_files a"
    and "labels_counter a \<noteq> [] \<or> 0 < n \<Longrightarrow> labels_counter (process_label_file f a) \<noteq> []"
proof -
  obtain ls lc' fo' where ls: "snd f = Some ls"
    and r: "read_lines ls (labels_counter a) [] 0 = (lc', Inr (fo', n))"
    using file_object_count_read [OF assms] by blast
  show "objects_per_image (process_label_file f a) = counter_incr n (objects_per_image a)"
    and "total_label_files (process_label_file f a) = total_label_files a"
    using ls r by (simp_all add: process_label_file_def)
  assume "labels_counter a \<noteq> [] \<or> 0 < n"
  then have "fst (read_lines ls (labels_counter a) [] 0) \<noteq> []"
    using read_lines_keeps_nonempty [of "labels_counter a" ls "[]" 0]
      read_lines_counted_nonempty [of ls "labels_counter a" "[]" 0 fo' n] r by auto
  then show "labels_counter (process_label_file f a) \<noteq> []"
    using ls r by (simp add: process_label_file_def)
qed

text \<open>
  Claim C8: on a corpus of exactly three label files (after the list files are set
  aside) whose object counts are 0, 2 and 2, in any order, the analysis succeeds with
  \<open>total_label_files = 3\<close> and \<open>objects_per_image = {0: 1, 2: 2}\<close>.
\<close>

theorem analyze_three_files:
  assumes files: "filter (\<lambda>f. basename (fst f) \<notin> set exclude_files) globbed = [f1, f2, f3]"
    and counts: "file_object_count f1 = Some n1" "file_object_count f2 = Some n2"
      "file_object_count f3 = Some n3"
    and perm: "(n1, n2, n3) \<in> {(0, 2, 2), (2, 0, 2), (2, 2, 0)}"
  shows "\<exists>a. analyze_labels_distribution globbed analyzer_init = (True, a) \<and>
             total_label_files a = 3 \<and>
             map_of (objects_per_image a) = [0 \<mapsto> 1, 2 \<mapsto> 2]"
proof -
  define a1 where "a1 = analyzer_init\<lparr>total_label_files := 3,
      class_objects_per_image := map (\<lambda>i. (int i, [])) [0..<100]\<rparr>"
  define b1 where "b1 = process_label_file f1 a1"
  define b2 where "b2 = process_label_file f2 b1"
  define b3 where "b3 = process_label_file f3 b2"
  have ne: "globbed \<noteq> []" using files by auto
  have h1: "objects_per_image b1 = counter_incr n1 []" "total_label_files b1 = 3"
    using process_label_file_histogram(1,2) [OF counts(1), of a1]
    by (simp_all add: b1_def a1_def analyzer_init_def)
  have h2: "objects_per_image b2 = counter_incr n2 (counter_incr n1 [])" "total_label_files b2 = 3"
    using process_label_file_histogram(1,2) [OF counts(2), of b1] h1
    by (simp_all add: b2_def)
  have h3: "objects_per_image b3 = counter_incr n3 (counter_incr n2 (counter_incr n1 []))"
    "total_label_files b3 = 3"
    using process_label_file_histogram(1,2) [OF counts(3), of b2] h2
    by (simp_all add: b3_def)
  have l1: "0 < n1 \<Longrightarrow> labels_counter b1 \<noteq> []"
    using process_label_file_histogram(3) [OF counts(1), of a1] by (simp add: b1_def)
  have l2: "0 < n1 \<or> 0 < n2 \<Longrightarrow> labels_counter b2 \<noteq> []"
    using process_label_file_histogram(3) [OF counts(2), of b1] l1 by (auto simp: b2_def)
  have l3: "labels_counter b3 \<noteq> []"
    using process_label_file_histogram(3) [OF counts(3), of b2] l2 perm by (auto simp: b3_def)
  have hist: "map_of (objects_per_image b3) = [0 \<mapsto> 1, 2 \<mapsto> 2]"
    using perm unfolding h3 by (auto simp: fun_eq_iff)
  have a1': "analyzer_init\<lparr>total_label_files := length [f1, f2, f3],
      class_objects_per_image := map (\<lambda>i. (int i, [])) [0..<100]\<rparr> = a1"
    by (simp add: a1_def)
  have run: "fold process_label_file [f1, f2, f3] a1 = b3"
    by (simp add: b1_def b2_def b3_def)
  have "analyze_labels_distribution globbed analyzer_init =
      (True, b3\<lparr>class_objects_per_image :=
                  filter (\<lambda>(k, v). v \<noteq> [] \<and> k \<in> fst ` set (labels_counter b3))
                    (class_objects_per_image b3),
                total_objects := sum_list (map snd (labels_counter b3))\<rparr>)"
    unfolding analyze_labels_distribution_def files Let_def a1' run
    using ne l3 by simp
  then show ?thesis using h3(2) hist by simp
qed

theorem analyze_three_files_witness:
  "\<exists>a. analyze_labels_distribution
         [(''labels/a.txt'', Some []),
          (''labels/classes.txt'', Some [''car'']),
          (''labels/b.txt'', Some [''0 0.5 0.5 0.2 0.2'', [], ''1 0.1 0.1 0.2 0.2'']),
          (''labels/c.txt'', Some [''1 0.5 0.5 0.2 0.2'', ''1 0.3 0.3 0.1 0.1''])]
         analyzer_init = (True, a) \<and>
       total_label_files a = 3 \<and>
       map_of (objects_per_image a) = [0 \<mapsto> 1, 2 \<mapsto> 2]"
proof (rule analyze_three_files [where ?n1.0 = 0 and ?n2.0 = 2 and ?n3.0 = 2])
  show "filter (\<lambda>f. basename (fst f) \<notin> set exclude_files)
         [(''labels/a.txt'', Some []),
          (''labels/classes.txt'', Some [''car'']),
          (''labels/b.txt'', Some [''0 0.5 0.5 0.2 0.2'', [], ''1 0.1 0.1 0.2 0.2'']),
          (''labels/c.txt'', Some [''1 0.5 0.5 0.2 0.2'', ''1 0.3 0.3 0.1 0.1''])] =
        [(''labels/a.txt'', Some []),
         (''labels/b.txt'', Some [''0 0.5 0.5 0.2 0.2'', [], ''1 0.1 0.1 0.2 0.2'']),
         (''labels/c.txt'', Some [''1 0.5 0.5 0.2 0.2'', ''1 0.3 0.3 0.1 0.1''])]"
    by (simp add: basename_def exclude_files_def)
  show "file_object_count (''labels/a.txt'', Some []) = Some 0"
    by (simp add: file_object_count_def)
  show "file_object_count
          (''labels/b.txt'', Some [''0 0.5 0.5 0.2 0.2'', [], ''1 0.1 0.1 0.2 0.2'']) = Some 2"
    by (simp add: file_object_count_def py_split_def py_int_def strip_def is_space_def
        is_digit_def digit_val_def int_unsigned_def)
  show "file_object_count
          (''labels/c.txt'', Some [''1 0.5 0.5 0.2 0.2'', ''1 0.3 0.3 0.1 0.1'']) = Some 2"
    by (simp add: file_object_count_def py_split_def py_int_def strip_def is_space_def
        is_digit_def digit_val_def int_unsigned_def)
  show "(0::nat, 2::nat, 2::nat) \<in> {(0, 2, 2), (2, 0, 2), (2, 2, 0)}" by simp
qed

section \<open>Properties of the validator\<close>

lemma is_digit_not_space: "is_digit c \<Longrightarrow> \<not> is_space c"
  by (auto simp: is_digit_def is_space_def)

lemma is_digit_not_sign: "is_digit c \<Longrightarrow> c \<noteq> CHR ''-'' \<and> c \<noteq> CHR ''+''"
  by (auto simp: is_digit_def)

lemma strip_no_space_ends:
  assumes "g \<noteq> []" "\<not> is_space (hd g)" "\<not> is_space (last g)"
  shows "strip g = g"
proof -
  have "dropWhile is_space g = g" using assms by (simp add: dropWhile_eq_self_iff)
  moreover have "dropWhile is_space (rev g) = rev g"
    using assms by (simp add: dropWhile_eq_self_iff hd_rev)
  ultimately show ?thesis by (simp add: strip_def)
qed

lemma py_int_digits_nonneg:
  assumes "g \<noteq> []" "\<forall>c \<in> set g. is_digit c" "py_int g = Inr i"
  shows "0 \<le> i"
proof -
  from assms(1) obtain c cs where g: "g = c # cs" by (cases g) auto
  have "is_digit (hd g)" "is_digit (last g)" using assms(1,2) by auto
  then have "strip g = g"
    using strip_no_space_ends [OF assms(1)] is_digit_not_space by blast
  moreover have "c \<noteq> CHR ''-''" "c \<noteq> CHR ''+''" using assms(2) g is_digit_not_sign by auto
  ultimately show ?thesis using assms(3) g
    by (auto simp: py_int_def split: option.splits)
qed

lemma scan_group_all: "scan_group p s = Some (g, r) \<Longrightarrow> g \<noteq> [] \<and> (\<forall>c \<in> set g. p c)"
  by (auto simp: scan_group_def Let_def split: if_splits dest: set_takeWhileD)

lemma yolo_line_pattern_class_id:
  assumes "yolo_line_pattern s = Some (g1, g2, g3, g4, g5)" "py_int g1 = Inr i"
  shows "0 \<le> i"
proof -
  from assms(1) obtain r1 where "scan_group is_digit (dropWhile is_space s) = Some (g1, r1)"
    by (auto simp: yolo_line_pattern_def split: option.splits if_splits)
  then have "g1 \<noteq> []" "\<forall>c \<in> set g1. is_digit c" using scan_group_all by blast+
  then show ?thesis using py_int_digits_nonneg assms(2) by blast
qed

lemma yolo_line_pattern_minus: "yolo_line_pattern (CHR ''-'' # s) = None"
  by (simp add: yolo_line_pattern_def scan_group_def is_space_def is_digit_def)

text \<open>
  The class id group is a run of digits, so \<^verbatim>\<open>int\<close> never returns a negative number for
  it, and a line that starts with a minus sign does not match the pattern at all. The
  branch \<^verbatim>\<open>elif class_id < 0\<close> is therefore never taken, whatever the label files hold.
\<close>

lemma no_negative_append: "no_negative (xs @ ys) \<longleftrightarrow> no_negative xs \<and> no_negative ys"
  by (auto simp: no_negative_def)

lemma no_negative_single:
  "no_negative [(f, MalformedLine n s)]" "no_negative [(f, CoordinateOutOfRange n)]"
  "no_negative [(f, ClassIdOutOfRange n i m)]" "no_negative [(f, ReadError e)]"
  "no_negative [(f, EmptyAnnotation)]" "no_negative []"
  by (simp_all add: no_negative_def)

lemma check_lines_no_negative:
  "no_negative invalid \<Longrightarrow> no_negative (fst (check_lines f m n ls invalid))"
proof (induction ls arbitrary: n invalid)
  case Nil
  then show ?case by simp
next
  case (Cons l ls)
  let ?line = "strip l"
  show ?case
  proof (cases "?line = []")
    case True
    then show ?thesis using Cons by simp
  next
    case False
    show ?thesis
    proof (cases "yolo_line_pattern ?line")
      case None
      then show ?thesis
        using False Cons.IH Cons.prems by (simp add: no_negative_append no_negative_single)
    next
      case (Some gs)
      obtain g1 g2 g3 g4 g5 where gs: "gs = (g1, g2, g3, g4, g5)" by (cases gs) auto
      show ?thesis
      proof (cases "py_int g1")
        case (Inl e)
        then show ?thesis using False Some gs Cons.prems by simp
      next
        case (Inr i)
        then have "\<not> i < 0" using yolo_line_pattern_class_id Some gs by fastforce
        then show ?thesis
          using False Some gs Inr Cons.prems
          by (simp add: Let_def Cons.IH no_negative_append no_negative_single
              split: sum.splits option.splits)
      qed
    qed
  qed
qed

lemma check_label_file_no_negative:
  assumes "no_negative invalid"
  shows "no_negative (check_label_file f content m invalid)"
proof (cases content)
  case None
  then show ?thesis
    using assms by (simp add: check_label_file_def no_negative_append no_negative_single)
next
  case (Some ls)
  obtain invalid' e where r: "check_lines f m 1 ls invalid = (invalid', e)"
    by (cases "check_lines f m 1 ls invalid") auto
  have "no_negative invalid'"
    using check_lines_no_negative [OF assms, of f m 1 ls] r by simp
  then show ?thesis
    using assms Some r
    by (auto simp: check_label_file_def no_negative_append no_negative_single
        split: option.splits)
qed

text \<open>
  Claim C4: a line whose class id is negative, such as \<^verbatim>\<open>-1 0.5 0.5 0.5 0.5\<close>, is flagged
  as a negative class id. The code does not do so: the line fails the pattern and is
  reported as a malformed line, with or without \<^verbatim>\<open>max_class_id\<close>.
\<close>

theorem negative_class_id_malformed:
  "check_label_file ''a.txt'' (Some [''-1 0.5 0.5 0.5 0.5'']) max_class_id [] =
     [(''a.txt'', MalformedLine 1 ''-1 0.5 0.5 0.5 0.5'')]"
  by (simp add: check_label_file_def strip_def is_space_def yolo_line_pattern_minus)

section \<open>Properties of the class list\<close>

lemma counter_incr_keys:
  "map fst (counter_incr k c) = (if k \<in> fst ` set c then map fst c else map fst c @ [k])"
  by (induction c) (auto split: if_splits)

lemma counter_incr_get:
  "name_count_get (counter_incr k c) k' = name_count_get c k' + (if k' = k then 1 else 0)"
  by (induction c) (auto simp: name_count_get_def)

lemma first_seen_snoc:
  "first_seen (xs @ [x]) = (if x \<in> set xs then first_seen xs else first_seen xs @ [x])"
  by (simp add: first_seen_def)

lemma set_first_seen: "set (first_seen xs) = set xs"
  by (simp add: first_seen_def)

lemma distinct_first_seen: "distinct (first_seen xs)"
  by (simp add: first_seen_def)

lemma fold_counter_incr_keys:
  "map fst (fold counter_incr ns []) = first_seen ns"
proof (induction ns rule: rev_induct)
  case Nil
  show ?case by (simp add: first_seen_def)
next
  case (snoc n ns)
  have "fst ` set (fold counter_incr ns []) = set ns"
    using snoc set_first_seen [of ns] by (metis set_map)
  then show ?case using snoc by (simp add: counter_incr_keys first_seen_snoc)
qed

lemma fold_counter_incr_get:
  "name_count_get (fold counter_incr ns c) k = name_count_get c k + int (count_list ns k)"
  by (induction ns arbitrary: c) (simp_all add: counter_incr_get)

lemma count_names_fold:
  "count_names t c = Inr c' \<Longrightarrow> c' = fold counter_incr (object_names t) c"
  "count_children ts c = Inr c' \<Longrightarrow> c' = fold counter_incr (concat (map object_names ts)) c"
proof (induction t c and ts c arbitrary: c' and c' rule: count_names_count_children.induct)
  case (1 tg tx ch name_count)
  then show ?case by (auto split: if_splits option.splits)
next
  case (2 name_count)
  then show ?case by simp
next
  case (3 c cs name_count)
  then show ?case by (auto split: sum.splits)
qed

lemma summarize_labels_fold:
  "summarize_labels docs c = Inr c' \<Longrightarrow> c' = fold counter_incr (corpus_names docs) c"
proof (induction docs arbitrary: c)
  case Nil
  then show ?case by (simp add: corpus_names_def)
next
  case (Cons doc docs)
  then show ?case
    by (auto simp: corpus_names_def parse_xml_file_def
        split: sum.splits option.splits if_splits dest!: count_names_fold(1))
qed

lemma first_index_snoc: "a \<in> set xs \<Longrightarrow> first_index (xs @ ys) a = first_index xs a"
  by (auto simp: first_index_def dest: split_list_first)

lemma first_index_less: "a \<in> set xs \<Longrightarrow> first_index xs a < length xs"
  by (induction xs) (auto simp: first_index_def)

lemma first_index_new: "a \<notin> set xs \<Longrightarrow> first_index (xs @ [a]) a = length xs"
proof -
  assume "a \<notin> set xs"
  then have "\<And>x. x \<in> set xs \<Longrightarrow> x \<noteq> a" by auto
  then show ?thesis by (simp add: first_index_def)
qed

lemma first_seen_sorted:
  "sorted_wrt (\<lambda>a b. first_index xs a < first_index xs b) (first_seen xs)"
proof (induction xs rule: rev_induct)
  case Nil
  show ?case by (simp add: first_seen_def)
next
  case (snoc x xs)
  have old: "sorted_wrt (\<lambda>a b. first_index (xs @ [x]) a < first_index (xs @ [x]) b) (first_seen xs)"
    by (rule sorted_wrt_mono_rel [OF _ snoc]) (simp add: set_first_seen first_index_snoc)
  show ?case
  proof (cases "x \<in> set xs")
    case True
    then show ?thesis using old by (simp add: first_seen_snoc)
  next
    case False
    then show ?thesis
      using old
      by (auto simp: first_seen_snoc sorted_wrt_append set_first_seen first_index_snoc
          first_index_new first_index_less)
  qed
qed

lemma insort_key_lex:
  fixes f :: "'a \<Rightarrow> int"
  assumes "sorted_wrt (\<lambda>a b. f a < f b \<or> (f a = f b \<and> S a b)) ys" "\<forall>y \<in> set ys. S x y"
  shows "sorted_wrt (\<lambda>a b. f a < f b \<or> (f a = f b \<and> S a b)) (insort_key f x ys)"
  using assms
proof (induction ys)
  case Nil
  then show ?case by simp
next
  case (Cons y ys)
  show ?case
  proof (cases "f x \<le> f y")
    case True
    have "\<forall>z \<in> set ys. f y \<le> f z" using Cons.prems(1) by auto
    then show ?thesis using True Cons.prems by (auto simp: less_le)
  next
    case False
    then show ?thesis using Cons by (auto simp: set_insort_key)
  qed
qed

lemma sort_key_lex:
  fixes f :: "'a \<Rightarrow> int"
  assumes "sorted_wrt S xs"
  shows "sorted_wrt (\<lambda>a b. f a < f b \<or> (f a = f b \<and> S a b)) (sort_key f xs)"
  using assms
proof (induction xs)
  case Nil
  show ?case by simp
next
  case (Cons x xs)
  then show ?case by (simp add: insort_key_lex)
qed

text \<open>
  Claim C6: for every corpus that the scan reads without an exception, the class list
  holds every name once, a name with more occurrences stands before a name with fewer,
  and names with equally many occurrences stand in the order in which the scan first
  met them. The count that \<^verbatim>\<open>name_count\<close> holds for a name is the number of its
  occurrences in the scan.
\<close>

theorem get_class_list_order:
  assumes scan: "summarize_labels docs [] = Inr name_count"
  shows "set (get_class_list name_count) = set (corpus_names docs) \<and>
         distinct (get_class_list name_count) \<and>
         (\<forall>k. name_count_get name_count k = int (count_list (corpus_names docs) k)) \<and>
         sorted_wrt
           (\<lambda>a b. count_list (corpus_names docs) a > count_list (corpus_names docs) b \<or>
                  (count_list (corpus_names docs) a = count_list (corpus_names docs) b \<and>
                   first_index (corpus_names docs) a < first_index (corpus_names docs) b))
           (get_class_list name_count)"
proof -
  let ?names = "corpus_names docs"
  let ?f = "\<lambda>k. - name_count_get name_count k"
  have nc: "name_count = fold counter_incr ?names []"
    using summarize_labels_fold [OF scan] .
  have keys: "map fst name_count = first_seen ?names"
    unfolding nc by (rule fold_counter_incr_keys)
  have cnt: "name_count_get name_count k = int (count_list ?names k)" for k
  proof -
    have "name_count_get [] k = 0" by (simp add: name_count_get_def)
    then show ?thesis unfolding nc by (simp add: fold_counter_incr_get)
  qed
  have L: "get_class_list name_count = sort_key ?f (first_seen ?names)"
    by (simp add: get_class_list_def keys)
  have "sorted_wrt (\<lambda>a b. ?f a < ?f b \<or> (?f a = ?f b \<and> first_index ?names a < first_index ?names b))
          (sort_key ?f (first_seen ?names))"
    by (rule sort_key_lex [OF first_seen_sorted])
  then have "sorted_wrt
           (\<lambda>a b. count_list ?names a > count_list ?names b \<or>
                  (count_list ?names a = count_list ?names b \<and>
                   first_index ?names a < first_index ?names b))
           (get_class_list name_count)"
    unfolding L by (simp add: cnt)
  moreover have "set (get_class_list name_count) = set ?names"
    unfolding L by (simp add: set_first_seen)
  moreover have "distinct (get_class_list name_count)"
    unfolding L by (simp add: distinct_first_seen)
  ultimately show ?thesis using cnt by blast
qed

theorem get_class_list_order_witness:
  "summarize_labels
     [Some (Element ''annotation'' None
        [Element ''object'' None [Element ''name'' (Some ''car'') []],
         Element ''object'' None [Element ''name'' (Some ''bus'') []]]),
      Some (Element ''annotation'' None
        [Element ''object'' None [Element ''name'' (Some ''bus'') []],
         Element ''object'' None [Element ''name'' (Some '' dog'') []]])] []
     = Inr [(''car'', 1), (''bus'', 2), (''dog'', 1)] \<and>
   get_class_list [(''car'', 1), (''bus'', 2), (''dog'', 1)] = [''bus'', ''car'', ''dog''] \<and>
   distinct (get_class_list [(''car'', 1), (''bus'', 2), (''dog'', 1)])"
proof -
  let ?docs = "[Some (Element ''annotation'' None
        [Element ''object'' None [Element ''name'' (Some ''car'') []],
         Element ''object'' None [Element ''name'' (Some ''bus'') []]]),
      Some (Element ''annotation'' None
        [Element ''object'' None [Element ''name'' (Some ''bus'') []],
         Element ''object'' None [Element ''name'' (Some '' dog'') []]])]"
  have scan: "summarize_labels ?docs [] = Inr [(''car'', 1), (''bus'', 2), (''dog'', 1)]"
    by (simp add: parse_xml_file_def find_child_def findall_def strip_def is_space_def)
  have list: "get_class_list [(''car'', 1), (''bus'', 2), (''dog'', 1)] = [''bus'', ''car'', ''dog'']"
    by (simp add: get_class_list_def name_count_get_def)
  have "distinct (get_class_list [(''car'', 1), (''bus'', 2), (''dog'', 1)])"
    using get_class_list_order [OF scan] by blast
  with scan list show ?thesis by (intro conjI)
qed

section \<open>Properties of the XML to TXT conversion\<close>

text \<open>The values of the examples.\<close>

lemma round_double_128th: "round_double (1/128) = Finite (1/128)"
  using round_double_exact [of 1 "- 7"] by (simp add: power_int_minus)

lemma py_int_128: "py_int ''128'' = Inr 128"
  by (simp add: py_int_def int_unsigned_def is_digit_def digit_val_def strip_def is_space_def)

lemma float_of_decimal_16: "float_of_decimal ''16'' = Some (Finite 16)"
  by (simp add: float_of_decimal_def float_of_group_def is_digit_def nat_of_digits_def
      digit_val_def rd_vals)

lemma float_of_decimal_48: "float_of_decimal ''48'' = Some (Finite 48)"
  by (simp add: float_of_decimal_def float_of_group_def is_digit_def nat_of_digits_def
      digit_val_def rd_vals)

lemma convert_coordinate_example:
  "convert_coordinate (128, 128) (Finite 16, Finite 48, Finite 16, Finite 48) =
     Inr (Finite (1/4), Finite (1/4), Finite (1/4), Finite (1/4))"
proof -
  have P: "float_of_int 128 = Inr (Finite 128)"
    using float_of_int_exact [of 128] by simp
  show ?thesis
    by (simp add: convert_coordinate_def P py_truediv_def fsub_def rd_vals round_double_128th)
qed

lemma read_bndbox_example:
  "read_bndbox float_of_decimal example_bndbox = Inr (Finite 16, Finite 48, Finite 16, Finite 48)"
  by (simp add: read_bndbox_def float_of_child_def find_child_def example_bndbox_def
      float_of_decimal_16 float_of_decimal_48)

lemma convert_file_example_car:
  "convert_file float_of_decimal example_converter
     (''in/b.xml'', Some (example_document [example_object ''car'' [example_bndbox]])) obj_id =
   Inr (Some 0, WriteLabels ''out/b.txt'' ''w''
                  [(0, Finite (1/4), Finite (1/4), Finite (1/4), Finite (1/4))])"
  by (simp add: convert_file_def example_document_def example_object_def example_size_def
      find_child_def findall_def int_of_child_def py_int_128 lookup_class_def truthy_def
      value_of_def example_converter_def read_bndbox_example [unfolded example_bndbox_def]
      example_bndbox_def convert_coordinate_example basename_def path_join_def)





lemma convert_file_alias_raises:
  "convert_file float_of_decimal
     (example_converter \<lparr>class_list := Some [''car''],
                          class_map_dist := Some [(''auto'', ''vehicle'')]\<rparr>)
     (''in/a.xml'', Some (example_document [example_object ''auto'' [example_bndbox]])) None =
   Inl ValueError"
  by (simp add: convert_file_def example_document_def example_object_def example_size_def
      find_child_def findall_def int_of_child_def py_int_128 lookup_class_def truthy_def
      value_of_def example_converter_def)

lemma convert_file_unbound_raises:
  "convert_file float_of_decimal
     (example_converter \<lparr>class_dir := Some ''classes'', class_list := None\<rparr>)
     (''in/a.xml'', Some (example_document [example_object ''car'' [example_bndbox]])) None =
   Inl UnboundLocalError"
  by (simp add: convert_file_def example_document_def example_object_def example_size_def
      find_child_def findall_def int_of_child_def py_int_128 lookup_class_def truthy_def
      value_of_def example_converter_def read_bndbox_example [unfolded example_bndbox_def]
      example_bndbox_def convert_coordinate_example)




text \<open>
  Claim C2, as stated: a failure on one file never aborts the run, and the remaining
  files are converted. It fails: nothing in \<^verbatim>\<open>_convert_xml_to_txt\<close> catches an exception.
  With an unparsable \<^verbatim>\<open>a.xml\<close> before a good \<^verbatim>\<open>b.xml\<close> the run ends with the parse error
  and has written nothing, although \<^verbatim>\<open>b.xml\<close> alone converts.
\<close>

theorem convert_xml_to_txt_counterexample:
  "convert_xml_to_txt float_of_decimal example_converter
     [(''in/a.xml'', None),
      (''in/b.xml'', Some (example_document [example_object ''car'' [example_bndbox]]))]
     None [] =
     (Some ParseError, []) \<and>
   convert_xml_to_txt float_of_decimal example_converter
     [(''in/b.xml'', Some (example_document [example_object ''car'' [example_bndbox]]))]
     None [] =
     (None, [WriteLabels ''out/b.txt'' ''w''
               [(0, Finite (1/4), Finite (1/4), Finite (1/4), Finite (1/4))]])"
  by (simp add: convert_file_example_car) (simp add: convert_file_def)

text \<open>
  Claim C2, amended: a file on which the conversion fails aborts the run. The run over
  a list of files with such a file in it ends with an exception, and the label files
  it has written are those of the run over the files before it: no file after the
  failing one is converted, and nothing is collected or reported.
\<close>

theorem convert_xml_to_txt_abort:
  assumes "\<forall>obj_id. isl (convert_file py_float cv f obj_id)"
  shows "fst (convert_xml_to_txt py_float cv (pre @ f # post) obj_id written) \<noteq> None \<and>
         snd (convert_xml_to_txt py_float cv (pre @ f # post) obj_id written) =
           snd (convert_xml_to_txt py_float cv pre obj_id written)"
proof (induction pre arbitrary: obj_id written)
  case Nil
  from assms obtain e where "convert_file py_float cv f obj_id = Inl e"
    by (cases "convert_file py_float cv f obj_id") (auto dest: spec [of _ obj_id])
  then show ?case by simp
next
  case (Cons g pre)
  show ?case
  proof (cases "convert_file py_float cv g obj_id")
    case (Inl e)
    then show ?thesis by simp
  next
    case (Inr r)
    then show ?thesis using Cons.IH by (cases r) simp
  qed
qed

theorem convert_xml_to_txt_abort_witness:
  "fst (convert_xml_to_txt float_of_decimal example_converter
     [(''in/b.xml'', Some (example_document [example_object ''car'' [example_bndbox]])),
      (''in/a.xml'', None),
      (''in/c.xml'', Some (example_document [example_object ''car'' [example_bndbox]]))]
     None []) \<noteq> None \<and>
   snd (convert_xml_to_txt float_of_decimal example_converter
     [(''in/b.xml'', Some (example_document [example_object ''car'' [example_bndbox]])),
      (''in/a.xml'', None),
      (''in/c.xml'', Some (example_document [example_object ''car'' [example_bndbox]]))]
     None []) =
   [WriteLabels ''out/b.txt'' ''w''
      [(0, Finite (1/4), Finite (1/4), Finite (1/4), Finite (1/4))]]"
proof -
  have bad: "\<forall>obj_id. isl (convert_file float_of_decimal example_converter
      (''in/a.xml'', None) obj_id)"
    by (simp add: convert_file_def)
  show ?thesis
    using convert_xml_to_txt_abort [OF bad,
      of "[(''in/b.xml'', Some (example_document [example_object ''car'' [example_bndbox]]))]"
         "[(''in/c.xml'', Some (example_document [example_object ''car'' [example_bndbox]]))]"
         None "[]"]
    by (simp add: convert_file_example_car)
qed

section \<open>Properties of the splitter\<close>

text \<open>The two counts of the example, the sizes of the parts, and the files written.\<close>

lemma round_double_four_fifths:
  "round_double (4/5) = Finite (3602879701896397 / 4503599627370496)"
  using round_double_eval [of "-1" "4/5"] by (simp add: rd_eval)

lemma round_double_three_quarters: "round_double (3/4) = Finite (3/4)"
  using round_double_exact [of 3 "- 2"] by (simp add: power_int_minus)

lemma trainval_count_100: "py_int_of_float (fmul (Finite 100) (round_double (4/5))) = Inr 80"
proof -
  have "fmul (Finite 100) (round_double (4/5)) = Finite 80"
    using round_double_eval [of 6 "100 * (3602879701896397 / 4503599627370496)"]
    by (simp add: rd_eval round_double_four_fifths)
  then show ?thesis by (simp add: py_int_of_float_def)
qed

lemma train_count_80: "py_int_of_float (fmul (Finite 80) (round_double (3/4))) = Inr 60"
  by (simp add: round_double_three_quarters py_int_of_float_def rd_vals)

lemma length_filter_notin:
  assumes "distinct xs" "distinct ys" "set ys \<subseteq> set xs"
  shows "length (filter (\<lambda>i. i \<notin> set ys) xs) = length xs - length ys"
proof -
  have "length (filter (\<lambda>i. i \<notin> set ys) xs) = card (set (filter (\<lambda>i. i \<notin> set ys) xs))"
    by (rule distinct_card [symmetric]) (simp add: assms(1))
  also have "set (filter (\<lambda>i. i \<notin> set ys) xs) = set xs - set ys" by auto
  also have "card (set xs - set ys) = card (set xs) - card (set ys)"
    using assms(3) by (simp add: card_Diff_subset)
  also have "\<dots> = length xs - length ys"
    using assms(1,2) by (simp add: distinct_card)
  finally show ?thesis .
qed

lemma partition_indices_sizes:
  assumes ok: "sample_ok sample" and b: "b \<le> a" and a: "a \<le> n"
  shows "\<exists>trainval train val test g'.
           partition_indices sample g n (int a) (int b) = (Inr (trainval, train, val, test), g') \<and>
           length trainval = a \<and> length train = b \<and> length val = a - b \<and>
           length test = n - a \<and>
           set train \<union> set val \<union> set test = {0..<n} \<and>
           set train \<inter> set val = {} \<and> set train \<inter> set test = {} \<and>
           set val \<inter> set test = {} \<and> set trainval = set train \<union> set val"
proof -
  obtain trainval g1 where s1: "sample g [0..<n] a = (trainval, g1)"
    by (cases "sample g [0..<n] a") auto
  obtain train g2 where s2: "sample g1 trainval b = (train, g2)"
    by (cases "sample g1 trainval b") auto
  have k: "length (fst (sample h population k)) = k \<and>
      distinct (fst (sample h population k)) \<and>
      set (fst (sample h population k)) \<subseteq> set population"
    if "k \<le> length population" "distinct population" for h population k
    using ok that unfolding sample_ok_def by blast
  have tv: "length trainval = a" "distinct trainval" "set trainval \<subseteq> {0..<n}"
    using k [of a "[0..<n]" g] a s1 by simp_all
  have tr: "length train = b" "distinct train" "set train \<subseteq> set trainval"
    using k [of b trainval g1] b s2 tv(1,2) by simp_all
  define val where "val = filter (\<lambda>i. i \<notin> set train) trainval"
  define test where "test = filter (\<lambda>i. i \<notin> set trainval) [0..<n]"
  have p: "partition_indices sample g n (int a) (int b) = (Inr (trainval, train, val, test), g2)"
    using a b s1 s2 tv(1)
    by (simp add: partition_indices_def py_sample_def val_def test_def Let_def)
  have lv: "length val = a - b"
    unfolding val_def using length_filter_notin [OF tv(2) tr(2) tr(3)] tv(1) tr(1) by simp
  have lt: "length test = n - a"
    unfolding test_def using length_filter_notin [of "[0..<n]" trainval] tv by simp
  have sv: "set val = set trainval - set train" unfolding val_def by auto
  have st: "set test = {0..<n} - set trainval" unfolding test_def by auto
  show ?thesis
    using p tv(1) tr(1) lv lt sv st tv(3) tr(3) by (intro exI conjI) auto
qed

lemma write_list_in_range:
  "\<forall>idx \<in> set indices_list. idx < bound \<Longrightarrow>
   write_list path line_of bound indices_list = (None, WriteLines path (map line_of indices_list))"
  by (simp add: write_list_def Let_def takeWhile_eq_all_conv [THEN iffD2])

lemma write_file_sets_in_range:
  "\<forall>s \<in> set file_sets. \<forall>idx \<in> set (snd s). idx < length all_image_info \<Longrightarrow>
   write_file_sets abspath all_image_info output_dir use_absolute_path generate_label_lists
     file_sets =
   (None, list_files abspath all_image_info output_dir use_absolute_path generate_label_lists
            file_sets)"
proof (induction file_sets)
  case Nil
  show ?case by (simp add: list_files_def)
next
  case (Cons s file_sets)
  obtain set_name indices_list where s: "s = (set_name, indices_list)" by (cases s) auto
  have r: "\<forall>idx \<in> set indices_list. idx < length all_image_info"
    using Cons.prems s by auto
  have IH: "write_file_sets abspath all_image_info output_dir use_absolute_path
      generate_label_lists file_sets =
   (None, list_files abspath all_image_info output_dir use_absolute_path generate_label_lists
            file_sets)"
    using Cons.IH Cons.prems by auto
  show ?case
    using IH by (cases generate_label_lists) (simp_all add: s write_list_in_range [OF r] list_files_def)
qed

lemma collect_image_info_Nil:
  "collect_image_info env [] labels_dir_list search_strings = []"
  by (simp add: collect_image_info_def)

text \<open>
  Claim C7: for a corpus of 100 items that all have a label file, with
  \<^verbatim>\<open>trainval_percent=0.8\<close>, \<^verbatim>\<open>train_percent=0.75\<close> and a seed, the splitter returns
  \<^verbatim>\<open>trainval\<close> 80, \<^verbatim>\<open>train\<close> 60, \<^verbatim>\<open>val\<close> 20 and \<^verbatim>\<open>test\<close> 20, the lists it writes have these
  lengths, the train, val and test lists partition the hundred indices, and the whole
  result is the same whatever the state of the generator when the call starts (and
  whatever the user would answer, who is not asked): a second run with the same seed
  writes the same lists. The counts are \<^verbatim>\<open>int(100 * 0.8)\<close> and \<^verbatim>\<open>int(80 * 0.75)\<close> in
  doubles.
\<close>

theorem split_100_items:
  fixes seed :: "int \<Rightarrow> 'g"
  assumes dirs: "length (images_dir_list_of images_dir) =
      length (labels_dir_list_of images_dir labels_dir)"
    and ex: "\<forall>d \<in> set (images_dir_list_of images_dir). path_exists env d"
    and len: "length (collect_image_info env (images_dir_list_of images_dir)
      (labels_dir_list_of images_dir labels_dir) search_strings) = 100"
    and lab: "\<forall>info \<in> set (collect_image_info env (images_dir_list_of images_dir)
      (labels_dir_list_of images_dir labels_dir) search_strings). has_label env info"
    and ok: "sample_ok sample"
  shows "\<exists>trainval train val test g' out.
      (\<forall>g answer.
         split_dataset env abspath seed sample answer g images_dir labels_dir output_dir
           search_strings (round_double (4/5)) (round_double (3/4)) use_absolute_path
           generate_label_lists (Some n) =
         (Inr \<lparr>num_total = 100, num_train = 60, num_val = 20, num_test = 20,
               num_trainval = 80, summary_output_dir = out\<rparr>,
          MakeDirs out #
            list_files abspath
              (collect_image_info env (images_dir_list_of images_dir)
                 (labels_dir_list_of images_dir labels_dir) search_strings)
              out use_absolute_path generate_label_lists
              [(''train'', train), (''val'', val), (''test'', test), (''trainval'', trainval)],
          g')) \<and>
      length train = 60 \<and> length val = 20 \<and> length test = 20 \<and> length trainval = 80 \<and>
      set train \<union> set val \<union> set test = {0..<100} \<and>
      set train \<inter> set val = {} \<and> set train \<inter> set test = {} \<and> set val \<inter> set test = {} \<and>
      set trainval = set train \<union> set val"
proof -
  define info where "info = collect_image_info env (images_dir_list_of images_dir)
      (labels_dir_list_of images_dir labels_dir) search_strings"
  define out where "out =
      (case output_dir of
         None \<Rightarrow> path_join (path_join (hd (images_dir_list_of images_dir)) ''..'') ''Main''
       | Some d \<Rightarrow> d)"
  have len': "length info = 100" using len by (simp add: info_def)
  have ne: "info \<noteq> []" using len' by auto
  have dl: "images_dir_list_of images_dir \<noteq> []"
    using len collect_image_info_Nil [of env] by (cases "images_dir_list_of images_dir") auto
  have miss: "filter (\<lambda>i. \<not> has_label env i) info = []"
    using lab by (simp add: info_def)
  have nex: "\<not> list_ex (\<lambda>img_dir. \<not> path_exists env img_dir) (images_dir_list_of images_dir)"
    using ex by (simp add: list_ex_iff)
  obtain trainval train val test g' where
    p: "partition_indices sample (seed n) 100 (int 80) (int 60) =
          (Inr (trainval, train, val, test), g')"
    and sz: "length trainval = 80" "length train = 60" "length val = 80 - 60"
      "length test = 100 - 80"
    and st: "set train \<union> set val \<union> set test = {0..<100}"
      "set train \<inter> set val = {}" "set train \<inter> set test = {}" "set val \<inter> set test = {}"
      "set trainval = set train \<union> set val"
    using partition_indices_sizes [OF ok, of 60 80 100 "seed n"] by auto
  have p': "partition_indices sample (seed n) 100 80 60 = (Inr (trainval, train, val, test), g')"
    using p by simp
  have rng: "\<forall>s \<in> set [(''train'', train), (''val'', val), (''test'', test),
      (''trainval'', trainval)]. \<forall>idx \<in> set (snd s). idx < length info"
    using st len' by auto
  have wr: "write_file_sets abspath info out use_absolute_path generate_label_lists
      [(''train'', train), (''val'', val), (''test'', test), (''trainval'', trainval)] =
      (None, list_files abspath info out use_absolute_path generate_label_lists
         [(''train'', train), (''val'', val), (''test'', test), (''trainval'', trainval)])"
    by (rule write_file_sets_in_range [OF rng])
  have P: "float_of_int 100 = Inr (Finite 100)" "float_of_int 80 = Inr (Finite 80)"
    using float_of_int_exact [of 100] float_of_int_exact [of 80] by simp_all
  have "split_dataset env abspath seed sample answer g images_dir labels_dir output_dir
           search_strings (round_double (4/5)) (round_double (3/4)) use_absolute_path
           generate_label_lists (Some n) =
         (Inr \<lparr>num_total = 100, num_train = 60, num_val = 20, num_test = 20,
               num_trainval = 80, summary_output_dir = out\<rparr>,
          MakeDirs out #
            list_files abspath info out use_absolute_path generate_label_lists
              [(''train'', train), (''val'', val), (''test'', test), (''trainval'', trainval)],
          g')" for g answer
    unfolding split_dataset_def Let_def info_def [symmetric] out_def [symmetric]
    using dirs nex dl ne miss len' P trainval_count_100 train_count_80 p' wr
    by simp
  then show ?thesis
    using sz st unfolding info_def by (intro exI conjI allI) simp_all
qed

lemma splitext_example:
  assumes "a \<in> set ''0123456789''" "b \<in> set ''0123456789''"
  shows "splitext ([a, b] @ ''.jpg'') = ([a, b], ''.jpg'')"
proof -
  have "a \<noteq> CHR ''/''" "a \<noteq> CHR ''.''" "b \<noteq> CHR ''/''" "b \<noteq> CHR ''.''"
    using assms by auto
  then show ?thesis by (simp add: splitext_def basename_def Let_def)
qed

lemma example_names_image:
  "name \<in> set example_names \<Longrightarrow> lower (snd (splitext name)) \<in> set split_image_extensions"
  by (auto simp: example_names_def splitext_example lower_def lower_char_def
      split_image_extensions_def simp del: append.simps)

lemma length_example_names: "length example_names = 100"
  by (simp add: example_names_def)

lemma get_all_image_files_example:
  "get_all_image_files example_world d = example_names"
  by (simp add: get_all_image_files_def example_world_def example_names_image)

lemma sample_ok_example: "sample_ok example_sample"
  by (auto simp: sample_ok_def example_sample_def dest: in_set_takeD)

theorem split_100_items_witness:
  "\<exists>trainval train val test g' out.
      (\<forall>g answer.
         split_dataset example_world (\<lambda>p. p) (\<lambda>n. n) example_sample answer g
           (Single ''images'') (Some (Single ''labels'')) (Some ''lists'') None
           (round_double (4/5)) (round_double (3/4)) False False (Some 42) =
         (Inr \<lparr>num_total = 100, num_train = 60, num_val = 20, num_test = 20,
               num_trainval = 80, summary_output_dir = out\<rparr>,
          MakeDirs out #
            list_files (\<lambda>p. p)
              (collect_image_info example_world (images_dir_list_of (Single ''images''))
                 (labels_dir_list_of (Single ''images'') (Some (Single ''labels''))) None)
              out False False
              [(''train'', train), (''val'', val), (''test'', test), (''trainval'', trainval)],
          g')) \<and>
      length train = 60 \<and> length val = 20 \<and> length test = 20 \<and> length trainval = 80 \<and>
      set train \<union> set val \<union> set test = {0..<100} \<and>
      set train \<inter> set val = {} \<and> set train \<inter> set test = {} \<and> set val \<inter> set test = {} \<and>
      set trainval = set train \<union> set val"
proof -
  have c: "collect_image_info example_world (images_dir_list_of (Single ''images''))
      (labels_dir_list_of (Single ''images'') (Some (Single ''labels''))) None =
      map (\<lambda>img_file. (img_file, ''images'', ''labels'')) example_names"
    by (simp add: collect_image_info_def images_dir_list_of_def labels_dir_list_of_def
        truthy_def get_all_image_files_example)
  have 1: "length (images_dir_list_of (Single ''images'')) =
      length (labels_dir_list_of (Single ''images'') (Some (Single ''labels'')))"
    by (simp add: images_dir_list_of_def labels_dir_list_of_def)
  have 2: "\<forall>d \<in> set (images_dir_list_of (Single ''images'')). path_exists example_world d"
    by (simp add: example_world_def)
  have 3: "length (collect_image_info example_world (images_dir_list_of (Single ''images''))
      (labels_dir_list_of (Single ''images'') (Some (Single ''labels''))) None) = 100"
    unfolding c by (simp add: length_example_names)
  have 4: "\<forall>info \<in> set (collect_image_info example_world
      (images_dir_list_of (Single ''images''))
      (labels_dir_list_of (Single ''images'') (Some (Single ''labels''))) None).
      has_label example_world info"
    by (auto simp: has_label_def example_world_def)
  show ?thesis
    by (rule split_100_items [OF 1 2 3 4 sample_ok_example])
qed

text \<open>
  Claim C9: configuration errors end a run at once, with nothing written. The splitter
  raises \<^verbatim>\<open>ValueError\<close> when the numbers of image and label directories differ or an
  image directory does not exist, before it seeds the generator or creates a
  directory; the converter exits at construction without a class source, before it
  creates the output directory; the validator returns its failure without a report
  when the image directory or the label directory does not exist.
\<close>

theorem configuration_errors_abort:
  "(length (images_dir_list_of images_dir) \<noteq> length (labels_dir_list_of images_dir labels_dir) \<longrightarrow>
      split_dataset env abspath seed sample answer g images_dir labels_dir output_dir
        search_strings trainval_percent train_percent use_absolute_path generate_label_lists
        random_seed = (Inl ValueError, [], g)) \<and>
   ((\<exists>d \<in> set (images_dir_list_of images_dir). \<not> path_exists env d) \<longrightarrow>
      split_dataset env abspath seed sample answer g images_dir labels_dir output_dir
        search_strings trainval_percent train_percent use_absolute_path generate_label_lists
        random_seed = (Inl ValueError, [], g)) \<and>
   (\<not> (truthy class_dir' \<or> truthy class_list' \<or> truthy class_map_dist') \<longrightarrow>
      converter_init input_dir' out_dir' class_dir' class_list' class_map_dist' txt_write_mode' =
        (Inl SystemExit, [])) \<and>
   (\<not> path_exists venv images \<longrightarrow>
      validate_yolo_dataset venv vsample images labels max_class_id report_path =
        (ConfigFailure (ImagesDirMissing images), [])) \<and>
   (path_exists venv images \<and> \<not> path_exists venv labels \<longrightarrow>
      validate_yolo_dataset venv vsample images labels max_class_id report_path =
        (ConfigFailure (LabelsDirMissing labels), []))"
proof -
  have "(\<exists>d \<in> set (images_dir_list_of images_dir). \<not> path_exists env d) \<longleftrightarrow>
      list_ex (\<lambda>img_dir. \<not> path_exists env img_dir) (images_dir_list_of images_dir)"
    by (simp add: list_ex_iff)
  then show ?thesis
    by (simp add: split_dataset_def Let_def converter_init_def validate_yolo_dataset_def)
qed

theorem configuration_errors_abort_witness:
  "split_dataset example_world (\<lambda>p. p) (\<lambda>n. n) example_sample ''y'' 7
     (Several [''images1'', ''images2'']) (Some (Single ''labels'')) None None
     (round_double (4/5)) (round_double (3/4)) True False (Some 42) =
     (Inl ValueError, [], 7) \<and>
   split_dataset (example_world \<lparr>path_exists := (\<lambda>p. p \<noteq> ''images'')\<rparr>) (\<lambda>p. p) (\<lambda>n. n)
     example_sample ''y'' 7 (Single ''images'') None None None
     (round_double (4/5)) (round_double (3/4)) True False (Some 42) =
     (Inl ValueError, [], 7) \<and>
   converter_init ''in'' ''out'' None None None ''w'' = (Inl SystemExit, []) \<and>
   validate_yolo_dataset (example_world \<lparr>path_exists := (\<lambda>p. p \<noteq> ''images'')\<rparr>)
     (\<lambda>xs k. take k xs) ''images'' ''labels'' None None =
     (ConfigFailure (ImagesDirMissing ''images''), []) \<and>
   validate_yolo_dataset (example_world \<lparr>path_exists := (\<lambda>p. p \<noteq> ''labels'')\<rparr>)
     (\<lambda>xs k. take k xs) ''images'' ''labels'' None None =
     (ConfigFailure (LabelsDirMissing ''labels''), [])"
  using
    configuration_errors_abort [of "Several [''images1'', ''images2'']" "Some (Single ''labels'')"
      example_world "\<lambda>p. p" "\<lambda>n. n" example_sample "''y''" 7 None None
      "round_double (4/5)" "round_double (3/4)" True False "Some 42"
      None None None "''in''" "''out''" "''w''"
      "example_world \<lparr>path_exists := (\<lambda>p. p \<noteq> ''images'')\<rparr>" "''images''"
      "\<lambda>xs k. take k xs" "''labels''" None None]
    configuration_errors_abort [of "Single ''images''" None
      "example_world \<lparr>path_exists := (\<lambda>p. p \<noteq> ''images'')\<rparr>"
      "\<lambda>p. p" "\<lambda>n. n" example_sample "''y''" 7 None None
      "round_double (4/5)" "round_double (3/4)" True False "Some 42"
      None None None "''in''" "''out''" "''w''"
      "example_world \<lparr>path_exists := (\<lambda>p. p \<noteq> ''labels'')\<rparr>" "''images''"
      "\<lambda>xs k. take k xs" "''labels''" None None]
  by (simp add: images_dir_list_of_def labels_dir_list_of_def truthy_def example_world_def)

end
